theory Spec2Isabelle
  imports Main
begin

section \<open>The interval workout timer engine (src/utils/timer.ts) in Isabelle/HOL\<close>

text \<open>
  The engine is the class \<open>TimerEngine\<close>. Its numbers are JavaScript numbers that only ever
  hold integers (millisecond instants of \<open>Date.now()\<close>, durations in whole seconds, list
  indices), so they are modelled as \<open>int\<close>. Every method reads the clock; the instant it
  reads is the first argument \<open>now\<close> of the method's model (one instant per synchronous
  call). The three callbacks given to the constructor are modelled by the list of the calls
  made to them, in order (field \<open>callbacks\<close>). The host's \<open>requestAnimationFrame\<close> queue is
  the pair of fields \<open>frameQueue\<close> (handles of the callbacks still pending, oldest first) and
  \<open>nextFrameId\<close> (the next handle the host hands out; handles are positive).
  Line numbers are those of the engine's source as it stands in src/unnamed/part_012.
\<close>

subsection \<open>Data model (src/types.ts)\<close>

datatype IntervalType = work | rest | warmup | finisher | cooldown

record Interval =
  label :: string
  duration :: int
  type :: IntervalType
  color :: "string option"

type_synonym Routine = "Interval list"

record TimerState =
  isRunning :: bool
  isPaused :: bool
  currentIntervalIndex :: int
  timeRemaining :: int
  totalElapsed :: int
  totalDuration :: int

datatype Notification =
    OnTick TimerState
  | OnIntervalChange int
  | OnComplete

text \<open>A value read from an array or returned by an accessor: an object, \<open>null\<close> or \<open>undefined\<close>.\<close>

datatype 'a js = Null | Undefined | Val 'a

record TimerEngine =
  startTime :: int
  pausedTime :: int
  pauseStartTime :: int
  animationFrameId :: "nat option"
  routine :: Routine
  currentIntervalIndex :: int
  isRunning :: bool
  isPaused :: bool
  callbacks :: "Notification list"
  frameQueue :: "nat list"
  nextFrameId :: nat

text \<open>The engine as the constructor leaves it (field initialisers, lines 186-197).\<close>

definition newTimerEngine :: TimerEngine where
  "newTimerEngine =
     \<lparr> startTime = 0, pausedTime = 0, pauseStartTime = 0, animationFrameId = None,
       routine = [], currentIntervalIndex = 0, isRunning = False, isPaused = False,
       callbacks = [], frameQueue = [], nextFrameId = 1 \<rparr>"

subsection \<open>Callbacks and the host's frame queue\<close>

definition onTick :: "TimerState \<Rightarrow> TimerEngine \<Rightarrow> TimerEngine" where
  "onTick state e = e\<lparr> callbacks := callbacks e @ [OnTick state] \<rparr>"

definition onIntervalChange :: "int \<Rightarrow> TimerEngine \<Rightarrow> TimerEngine" where
  "onIntervalChange intervalIndex e = e\<lparr> callbacks := callbacks e @ [OnIntervalChange intervalIndex] \<rparr>"

definition onComplete :: "TimerEngine \<Rightarrow> TimerEngine" where
  "onComplete e = e\<lparr> callbacks := callbacks e @ [OnComplete] \<rparr>"

text \<open>\<open>this.animationFrameId = requestAnimationFrame(this.tick)\<close>\<close>

definition requestAnimationFrame :: "TimerEngine \<Rightarrow> TimerEngine" where
  "requestAnimationFrame e =
     e\<lparr> animationFrameId := Some (nextFrameId e),
        frameQueue := frameQueue e @ [nextFrameId e],
        nextFrameId := nextFrameId e + 1 \<rparr>"

text \<open>
  \<open>if (this.animationFrameId) { cancelAnimationFrame(this.animationFrameId);
  this.animationFrameId = null }\<close>: the test is JavaScript truthiness, so neither \<open>null\<close> nor
  the number 0 cancels anything.
\<close>

definition cancelPendingFrame :: "TimerEngine \<Rightarrow> TimerEngine" where
  "cancelPendingFrame e =
     (case animationFrameId e of
        None \<Rightarrow> e
      | Some h \<Rightarrow>
          if h = 0 then e
          else e\<lparr> frameQueue := filter (\<lambda>q. q \<noteq> h) (frameQueue e), animationFrameId := None \<rparr>)"

subsection \<open>Array helpers\<close>

text \<open>\<open>routine[i]\<close>: \<open>undefined\<close> outside the array.\<close>

definition at :: "'a list \<Rightarrow> int \<Rightarrow> 'a js" where
  "at xs i = (if 0 \<le> i \<and> i < int (length xs) then Val (xs ! nat i) else Undefined)"

text \<open>\<open>routine.slice(0, end)\<close>: a negative \<open>end\<close> counts from the end of the array.\<close>

definition slice0 :: "'a list \<Rightarrow> int \<Rightarrow> 'a list" where
  "slice0 xs end =
     (let len = int (length xs);
          k = (if end < 0 then max (len + end) 0 else min end len)
      in take (nat k) xs)"

text \<open>\<open>.reduce((sum, interval) => sum + interval.duration * 1000, 0)\<close>\<close>

definition sumDurationMs :: "Routine \<Rightarrow> int" where
  "sumDurationMs xs = foldl (\<lambda>sum interval. sum + duration interval * 1000) 0 xs"

text \<open>\<open>Math.ceil(x / 1000)\<close> and \<open>Math.floor(x / 1000)\<close> on an integer \<open>x\<close>.\<close>

definition ceilDiv1000 :: "int \<Rightarrow> int" where
  "ceilDiv1000 x = - ((- x) div 1000)"

definition floorDiv1000 :: "int \<Rightarrow> int" where
  "floorDiv1000 x = x div 1000"

subsection \<open>Accessors (lines 282-289)\<close>

definition getCurrentInterval :: "TimerEngine \<Rightarrow> Interval js" where
  "getCurrentInterval e =
     (if length (routine e) > 0 then at (routine e) (currentIntervalIndex e) else Null)"

definition getNextInterval :: "TimerEngine \<Rightarrow> Interval js" where
  "getNextInterval e =
     (let nextIndex = currentIntervalIndex e + 1
      in if nextIndex < int (length (routine e)) then at (routine e) nextIndex else Null)"

subsection \<open>updateState (lines 341-371)\<close>

text \<open>
  \<open>buildState\<close> is the object \<open>state\<close> that \<open>updateState\<close> builds (lines 342-368);
  \<open>updateState\<close> hands it to \<open>onTick\<close> (line 370).
\<close>

definition buildState :: "int \<Rightarrow> TimerEngine \<Rightarrow> TimerState" where
  "buildState now e =
     (let totalElapsed =
            (if isRunning e then now - startTime e - pausedTime e
             else if isPaused e then pauseStartTime e - startTime e - pausedTime e
             else 0);
          elapsedForPreviousIntervals = sumDurationMs (slice0 (routine e) (currentIntervalIndex e));
          currentIntervalElapsed = max 0 (totalElapsed - elapsedForPreviousIntervals);
          currentIntervalDurationMs =
            (case getCurrentInterval e of Val currentInterval \<Rightarrow> duration currentInterval * 1000 | _ \<Rightarrow> 0);
          timeRemainingMs = max 0 (currentIntervalDurationMs - currentIntervalElapsed);
          totalDurationMs = sumDurationMs (routine e)
      in \<lparr> TimerState.isRunning = isRunning e,
           TimerState.isPaused = isPaused e,
           TimerState.currentIntervalIndex = currentIntervalIndex e,
           timeRemaining = ceilDiv1000 timeRemainingMs,
           totalElapsed = floorDiv1000 totalElapsed,
           totalDuration = floorDiv1000 totalDurationMs \<rparr>)"

definition updateState :: "int \<Rightarrow> TimerEngine \<Rightarrow> TimerEngine" where
  "updateState now e = onTick (buildState now e) e"

subsection \<open>tick (lines 304-339)\<close>

text \<open>
  The \<open>for\<close> loop of lines 314-322, entered at index \<open>i\<close> with \<open>elapsedMs\<close> accumulated so
  far and the intervals from \<open>i\<close> on still to visit; its value is \<open>intervalIndex\<close> when the
  loop is left (by \<open>break\<close> or by running off the end of the routine).
\<close>

fun findIntervalIndex :: "Routine \<Rightarrow> int \<Rightarrow> int \<Rightarrow> int \<Rightarrow> int" where
  "findIntervalIndex [] totalElapsedMs elapsedMs i = i"
| "findIntervalIndex (interval # later) totalElapsedMs elapsedMs i =
     (let intervalDurationMs = duration interval * 1000
      in if totalElapsedMs < elapsedMs + intervalDurationMs then i
         else findIntervalIndex later totalElapsedMs (elapsedMs + intervalDurationMs) (i + 1))"

definition tick :: "int \<Rightarrow> TimerEngine \<Rightarrow> TimerEngine" where
  "tick now e =
     (if \<not> isRunning e then e
      else
        let totalElapsed = now - startTime e - pausedTime e;
            intervalIndex = findIntervalIndex (routine e) totalElapsed 0 0;
            e1 = (if intervalIndex \<noteq> currentIntervalIndex e \<and> intervalIndex < int (length (routine e))
                  then onIntervalChange intervalIndex (e\<lparr> currentIntervalIndex := intervalIndex \<rparr>)
                  else e)
        in if intervalIndex \<ge> int (length (routine e))
           then onComplete (e1\<lparr> isRunning := False \<rparr>)
           else requestAnimationFrame (updateState now e1))"

subsection \<open>The public operations (lines 209-302, 373-377)\<close>

definition reset :: "int \<Rightarrow> TimerEngine \<Rightarrow> TimerEngine" where
  "reset now e =
     updateState now
       (cancelPendingFrame
          (e\<lparr> isRunning := False, isPaused := False, currentIntervalIndex := 0,
              startTime := 0, pausedTime := 0, pauseStartTime := 0 \<rparr>))"

definition setRoutine :: "int \<Rightarrow> Routine \<Rightarrow> TimerEngine \<Rightarrow> TimerEngine" where
  "setRoutine now r e = updateState now (reset now (e\<lparr> routine := r \<rparr>))"

definition start :: "int \<Rightarrow> TimerEngine \<Rightarrow> TimerEngine" where
  "start now e =
     (if length (routine e) = 0 then e
      else
        let e1 = (if isPaused e
                  then e\<lparr> pausedTime := pausedTime e + (now - pauseStartTime e), isPaused := False \<rparr>
                  else e\<lparr> startTime := now, pausedTime := 0 \<rparr>)
        in tick now (e1\<lparr> isRunning := True \<rparr>))"

definition pause :: "int \<Rightarrow> TimerEngine \<Rightarrow> TimerEngine" where
  "pause now e =
     (if \<not> isRunning e then e
      else updateState now
             (cancelPendingFrame (e\<lparr> isPaused := True, isRunning := False, pauseStartTime := now \<rparr>)))"

definition adjustTimerForNewInterval :: "int \<Rightarrow> TimerEngine \<Rightarrow> TimerEngine" where
  "adjustTimerForNewInterval now e =
     (let elapsedForPreviousIntervals = sumDurationMs (slice0 (routine e) (currentIntervalIndex e))
      in updateState now (e\<lparr> startTime := now - elapsedForPreviousIntervals, pausedTime := 0 \<rparr>))"

definition nextInterval :: "int \<Rightarrow> TimerEngine \<Rightarrow> TimerEngine" where
  "nextInterval now e =
     (if currentIntervalIndex e < int (length (routine e)) - 1
      then let e1 = adjustTimerForNewInterval now (e\<lparr> currentIntervalIndex := currentIntervalIndex e + 1 \<rparr>)
           in onIntervalChange (currentIntervalIndex e1) e1
      else e)"

definition previousInterval :: "int \<Rightarrow> TimerEngine \<Rightarrow> TimerEngine" where
  "previousInterval now e =
     (if currentIntervalIndex e > 0
      then let e1 = adjustTimerForNewInterval now (e\<lparr> currentIntervalIndex := currentIntervalIndex e - 1 \<rparr>)
           in onIntervalChange (currentIntervalIndex e1) e1
      else e)"

definition destroy :: "TimerEngine \<Rightarrow> TimerEngine" where
  "destroy e =
     (case animationFrameId e of
        None \<Rightarrow> e
      | Some h \<Rightarrow> if h = 0 then e else e\<lparr> frameQueue := filter (\<lambda>q. q \<noteq> h) (frameQueue e) \<rparr>)"

subsection \<open>The host: animation frames and sequences of events\<close>

text \<open>
  The host runs the oldest pending animation-frame callback, which is always \<open>this.tick\<close>;
  with nothing pending, nothing happens.
\<close>

definition frame :: "int \<Rightarrow> TimerEngine \<Rightarrow> TimerEngine" where
  "frame now e =
     (case frameQueue e of
        [] \<Rightarrow> e
      | h # queue \<Rightarrow> tick now (e\<lparr> frameQueue := queue \<rparr>))"

datatype Op =
    SetRoutine Routine
  | Start
  | Pause
  | Reset
  | NextInterval
  | PreviousInterval
  | Destroy
  | Frame

fun exec :: "int \<times> Op \<Rightarrow> TimerEngine \<Rightarrow> TimerEngine" where
  "exec (now, SetRoutine r) e = setRoutine now r e"
| "exec (now, Start) e = start now e"
| "exec (now, Pause) e = pause now e"
| "exec (now, Reset) e = reset now e"
| "exec (now, NextInterval) e = nextInterval now e"
| "exec (now, PreviousInterval) e = previousInterval now e"
| "exec (now, Destroy) e = destroy e"
| "exec (now, Frame) e = frame now e"

text \<open>An event is an operation (or a frame) together with the instant at which it happens.\<close>

definition run :: "(int \<times> Op) list \<Rightarrow> TimerEngine \<Rightarrow> TimerEngine" where
  "run evs e = foldl (\<lambda>e ev. exec ev e) e evs"

text \<open>Frames at the given instants, one after the other.\<close>

definition frames :: "int list \<Rightarrow> (int \<times> Op) list" where
  "frames ts = map (\<lambda>t. (t, Frame)) ts"

text \<open>The payloads of the interval-changed notifications in a list of callback calls.\<close>

fun intervalChanges :: "Notification list \<Rightarrow> int list" where
  "intervalChanges [] = []"
| "intervalChanges (OnIntervalChange k # ns) = k # intervalChanges ns"
| "intervalChanges (n # ns) = intervalChanges ns"

text \<open>
  The property of claim C3 for one callback call, against the routine \<open>r\<close> held when it is
  made: a state notification reports a \<open>timeRemaining\<close> between 0 and the duration of the
  interval at the index it reports (0 when there is no such interval).
\<close>

definition timeRemainingInRange :: "Routine \<Rightarrow> Notification \<Rightarrow> bool" where
  "timeRemainingInRange r n =
     (case n of
        OnTick s \<Rightarrow>
          0 \<le> timeRemaining s \<and>
          timeRemaining s \<le> (case at r (TimerState.currentIntervalIndex s) of Val x \<Rightarrow> duration x | _ \<Rightarrow> 0)
      | _ \<Rightarrow> True)"

text \<open>The routine \<open>sampleRoutine\<close> of the engine's test suite.\<close>

definition sampleRoutine :: Routine where
  "sampleRoutine =
     [\<lparr>label = ''Warmup'', duration = 5, type = warmup, color = None\<rparr>,
      \<lparr>label = ''Work 1'', duration = 10, type = work, color = None\<rparr>,
      \<lparr>label = ''Rest 1'', duration = 5, type = rest, color = None\<rparr>,
      \<lparr>label = ''Work 2'', duration = 10, type = work, color = None\<rparr>,
      \<lparr>label = ''Cooldown'', duration = 5, type = cooldown, color = None\<rparr>]"

text \<open>
  The invariant of the engine's position and status: the index is inside the routine (0 for
  an empty routine), and the engine is never running and paused at once.
\<close>

definition wellFormed :: "TimerEngine \<Rightarrow> bool" where
  "wellFormed e =
     (0 \<le> currentIntervalIndex e \<and>
      (currentIntervalIndex e < int (length (routine e)) \<or> (routine e = [] \<and> currentIntervalIndex e = 0)) \<and>
      \<not> (isRunning e \<and> isPaused e))"

section \<open>Basic facts\<close>

subsection \<open>Sums of durations and the interval scan\<close>

lemma foldl_add_sum_list:
  "foldl (\<lambda>s x. s + f x) (a::int) xs = a + sum_list (map f xs)"
  by (induction xs arbitrary: a) simp_all

lemma sumDurationMs_sum_list:
  "sumDurationMs xs = (\<Sum>x\<leftarrow>xs. duration x * 1000)"
  by (simp add: sumDurationMs_def foldl_add_sum_list)

lemma sumDurationMs_Nil [simp]: "sumDurationMs [] = 0"
  by (simp add: sumDurationMs_def)

lemma sumDurationMs_Cons [simp]: "sumDurationMs (x # xs) = duration x * 1000 + sumDurationMs xs"
  by (simp add: sumDurationMs_sum_list)

lemma sumDurationMs_nonneg:
  "\<forall>x\<in>set xs. 0 \<le> duration x \<Longrightarrow> 0 \<le> sumDurationMs xs"
  by (induction xs) simp_all

lemma sumDurationMs_take_le:
  "\<forall>x\<in>set xs. 0 \<le> duration x \<Longrightarrow> sumDurationMs (take j xs) \<le> sumDurationMs xs"
proof (induction xs arbitrary: j)
  case Nil
  then show ?case by simp
next
  case (Cons x xs)
  then show ?case by (cases j) (simp_all add: sumDurationMs_nonneg)
qed

lemma findIntervalIndex_bounds:
  "i \<le> findIntervalIndex xs T acc i \<and> findIntervalIndex xs T acc i \<le> i + int (length xs)"
proof (induction xs arbitrary: acc i)
  case Nil
  show ?case by simp
next
  case (Cons x xs)
  from Cons [where acc = "acc + duration x * 1000" and i = "i + 1"] show ?case by (simp add: Let_def)
qed

lemma findIntervalIndex_span:
  "\<lbrakk>\<forall>x\<in>set xs. 0 \<le> duration x; acc \<le> T; j < length xs\<rbrakk> \<Longrightarrow>
     (acc + sumDurationMs (take j xs) \<le> T \<and> T < acc + sumDurationMs (take j xs) + duration (xs ! j) * 1000)
       = (findIntervalIndex xs T acc i = i + int j)"
proof (induction xs arbitrary: acc i j)
  case Nil
  then show ?case by simp
next
  case (Cons x xs)
  let ?d = "duration x * 1000"
  show ?case
  proof (cases "T < acc + ?d")
    case True
    show ?thesis
    proof (cases j)
      case 0
      with True Cons.prems show ?thesis by (simp add: Let_def)
    next
      case (Suc j')
      have "0 \<le> sumDurationMs (take j' xs)"
        using Cons.prems(1) by (intro sumDurationMs_nonneg) (auto dest: in_set_takeD)
      with True Suc show ?thesis by (simp add: Let_def)
    qed
  next
    case False
    show ?thesis
    proof (cases j)
      case 0
      from findIntervalIndex_bounds [of "i + 1" xs T "acc + ?d"]
      have "findIntervalIndex xs T (acc + ?d) (i + 1) \<noteq> i" by linarith
      with False 0 show ?thesis by (simp add: Let_def)
    next
      case (Suc j')
      from Cons.prems Suc False
      have "(acc + ?d + sumDurationMs (take j' xs) \<le> T \<and>
             T < acc + ?d + sumDurationMs (take j' xs) + duration (xs ! j') * 1000)
            = (findIntervalIndex xs T (acc + ?d) (i + 1) = i + 1 + int j')"
        by (intro Cons.IH) simp_all
      with False Suc show ?thesis by (simp add: Let_def add.assoc)
    qed
  qed
qed

lemma findIntervalIndex_end:
  "\<lbrakk>\<forall>x\<in>set xs. 0 \<le> duration x; acc \<le> T\<rbrakk> \<Longrightarrow>
     (acc + sumDurationMs xs \<le> T) = (findIntervalIndex xs T acc i = i + int (length xs))"
proof (induction xs arbitrary: acc i)
  case Nil
  then show ?case by simp
next
  case (Cons x xs)
  let ?d = "duration x * 1000"
  show ?case
  proof (cases "T < acc + ?d")
    case True
    have "0 \<le> sumDurationMs xs" using Cons.prems(1) by (intro sumDurationMs_nonneg) simp
    with True show ?thesis by (simp add: Let_def)
  next
    case False
    from Cons.prems False
    have "(acc + ?d + sumDurationMs xs \<le> T) = (findIntervalIndex xs T (acc + ?d) (i + 1) = i + 1 + int (length xs))"
      by (intro Cons.IH) simp_all
    with False show ?thesis by (simp add: Let_def add.assoc)
  qed
qed

subsection \<open>Event sequences, state snapshots and ticks\<close>

lemma intervalChanges_append [simp]:
  "intervalChanges (xs @ ys) = intervalChanges xs @ intervalChanges ys"
  by (induction xs rule: intervalChanges.induct) simp_all

lemma run_Nil [simp]: "run [] e = e"
  by (simp add: run_def)

lemma run_Cons [simp]: "run (ev # evs) e = run evs (exec ev e)"
  by (simp add: run_def)

lemma run_append [simp]: "run (xs @ ys) e = run ys (run xs e)"
  by (simp add: run_def)

lemma frames_Nil [simp]: "frames [] = []"
  by (simp add: frames_def)

lemma frames_Cons [simp]: "frames (t # ts) = (t, Frame) # frames ts"
  by (simp add: frames_def)

lemma buildState_callbacks [simp]: "buildState now (e\<lparr>callbacks := c\<rparr>) = buildState now e"
  by (simp add: buildState_def getCurrentInterval_def)

lemma buildState_frameQueue [simp]: "buildState now (e\<lparr>frameQueue := q\<rparr>) = buildState now e"
  by (simp add: buildState_def getCurrentInterval_def)

lemma buildState_animationFrameId [simp]: "buildState now (e\<lparr>animationFrameId := a\<rparr>) = buildState now e"
  by (simp add: buildState_def getCurrentInterval_def)

lemma buildState_nextFrameId [simp]: "buildState now (e\<lparr>nextFrameId := a\<rparr>) = buildState now e"
  by (simp add: buildState_def getCurrentInterval_def)

text \<open>A tick of a running engine whose derived index is inside the routine.\<close>

lemma tick_inside:
  assumes "isRunning e"
    and "k = findIntervalIndex (routine e) (now - startTime e - pausedTime e) 0 0"
    and "k < int (length (routine e))"
  shows "tick now e =
           e\<lparr> currentIntervalIndex := k,
              callbacks := callbacks e @ (if k \<noteq> currentIntervalIndex e then [OnIntervalChange k] else [])
                             @ [OnTick (buildState now (e\<lparr>currentIntervalIndex := k\<rparr>))],
              animationFrameId := Some (nextFrameId e),
              frameQueue := frameQueue e @ [nextFrameId e],
              nextFrameId := nextFrameId e + 1 \<rparr>"
  using assms
  by (simp add: tick_def Let_def updateState_def onTick_def onIntervalChange_def requestAnimationFrame_def)

lemma tick_complete:
  assumes "isRunning e"
    and "int (length (routine e)) \<le> findIntervalIndex (routine e) (now - startTime e - pausedTime e) 0 0"
  shows "tick now e = e\<lparr> isRunning := False, callbacks := callbacks e @ [OnComplete] \<rparr>"
  using assms
  by (simp add: tick_def Let_def onComplete_def)

lemma tick_not_running: "\<not> isRunning e \<Longrightarrow> tick now e = e"
  by (simp add: tick_def)

lemma setRoutine_fields:
  "routine (setRoutine now r e) = r"
  "currentIntervalIndex (setRoutine now r e) = 0"
  "isRunning (setRoutine now r e) = False"
  "isPaused (setRoutine now r e) = False"
  "startTime (setRoutine now r e) = 0"
  "pausedTime (setRoutine now r e) = 0"
  "pauseStartTime (setRoutine now r e) = 0"
  by (simp_all add: setRoutine_def reset_def updateState_def onTick_def cancelPendingFrame_def
        split: option.split)

lemma setRoutine_callbacks:
  "callbacks (setRoutine now r e) =
     callbacks e @ [OnTick (buildState now (e\<lparr> routine := r, isRunning := False, isPaused := False, currentIntervalIndex := 0,
              startTime := 0, pausedTime := 0, pauseStartTime := 0 \<rparr>)),
                    OnTick (buildState now (e\<lparr> routine := r, isRunning := False, isPaused := False, currentIntervalIndex := 0,
              startTime := 0, pausedTime := 0, pauseStartTime := 0 \<rparr>))]"
  by (simp add: setRoutine_def reset_def updateState_def onTick_def cancelPendingFrame_def
        split: option.split)

text \<open>Frames of the first interval of a two-interval routine.\<close>

lemma frame_first_interval:
  assumes "isRunning e" "startTime e = t0" "pausedTime e = 0"
    and "routine e = [a, b]" "duration a = 5" "duration b = 10"
    and "currentIntervalIndex e = 0" "frameQueue e \<noteq> []"
    and "t0 \<le> t" "t < t0 + 5000"
  shows "isRunning (frame t e) \<and> startTime (frame t e) = t0 \<and> pausedTime (frame t e) = 0 \<and>
         routine (frame t e) = [a, b] \<and> currentIntervalIndex (frame t e) = 0 \<and>
         frameQueue (frame t e) \<noteq> [] \<and>
         intervalChanges (callbacks (frame t e)) = intervalChanges (callbacks e)"
proof -
  obtain h q where q: "frameQueue e = h # q" using assms(8) by (cases "frameQueue e") auto
  let ?e = "e\<lparr>frameQueue := q\<rparr>"
  have k: "findIntervalIndex (routine ?e) (t - startTime ?e - pausedTime ?e) 0 0 = 0"
    using assms by (simp add: Let_def)
  have "frame t e = tick t ?e" using q by (simp add: frame_def)
  also have "\<dots> = ?e\<lparr> currentIntervalIndex := 0,
              callbacks := callbacks ?e @ (if 0 \<noteq> currentIntervalIndex ?e then [OnIntervalChange 0] else [])
                             @ [OnTick (buildState t (?e\<lparr>currentIntervalIndex := 0\<rparr>))],
              animationFrameId := Some (nextFrameId ?e),
              frameQueue := frameQueue ?e @ [nextFrameId ?e],
              nextFrameId := nextFrameId ?e + 1 \<rparr>"
    using assms(1,4) k by (intro tick_inside) simp_all
  finally show ?thesis using assms by simp
qed

lemma frames_first_interval:
  assumes "\<forall>t\<in>set ts. t0 \<le> t \<and> t < t0 + 5000"
    and "isRunning e" "startTime e = t0" "pausedTime e = 0"
    and "routine e = [a, b]" "duration a = 5" "duration b = 10"
    and "currentIntervalIndex e = 0" "frameQueue e \<noteq> []"
  shows "isRunning (run (frames ts) e) \<and> startTime (run (frames ts) e) = t0 \<and>
         pausedTime (run (frames ts) e) = 0 \<and>
         routine (run (frames ts) e) = [a, b] \<and> currentIntervalIndex (run (frames ts) e) = 0 \<and>
         frameQueue (run (frames ts) e) \<noteq> [] \<and>
         intervalChanges (callbacks (run (frames ts) e)) = intervalChanges (callbacks e)"
  using assms
proof (induction ts arbitrary: e)
  case Nil
  then show ?case by simp
next
  case (Cons t ts)
  have step: "isRunning (frame t e) \<and> startTime (frame t e) = t0 \<and> pausedTime (frame t e) = 0 \<and>
         routine (frame t e) = [a, b] \<and> currentIntervalIndex (frame t e) = 0 \<and>
         frameQueue (frame t e) \<noteq> [] \<and>
         intervalChanges (callbacks (frame t e)) = intervalChanges (callbacks e)"
    using Cons.prems by (intro frame_first_interval) simp_all
  have "\<forall>t\<in>set ts. t0 \<le> t \<and> t < t0 + 5000" using Cons.prems(1) by simp
  from Cons.IH [OF this, of "frame t e"] step Cons.prems(6,7)
  show ?case by simp
qed

lemma start_idle:
  assumes "routine e \<noteq> []" "\<not> isPaused e"
    and "k = findIntervalIndex (routine e) 0 0 0" "k < int (length (routine e))"
  shows "start now e =
           e\<lparr> startTime := now, pausedTime := 0, isRunning := True,
              currentIntervalIndex := k,
              callbacks := callbacks e @ (if k \<noteq> currentIntervalIndex e then [OnIntervalChange k] else [])
                 @ [OnTick (buildState now (e\<lparr> startTime := now, pausedTime := 0, isRunning := True, currentIntervalIndex := k\<rparr>))],
              animationFrameId := Some (nextFrameId e),
              frameQueue := frameQueue e @ [nextFrameId e],
              nextFrameId := nextFrameId e + 1 \<rparr>"
proof -
  let ?e = "e\<lparr> startTime := now, pausedTime := 0, isRunning := True \<rparr>"
  have "start now e = tick now ?e" using assms(1,2) by (simp add: start_def)
  also have "\<dots> = ?e\<lparr> currentIntervalIndex := k,
              callbacks := callbacks ?e @ (if k \<noteq> currentIntervalIndex ?e then [OnIntervalChange k] else [])
                             @ [OnTick (buildState now (?e\<lparr>currentIntervalIndex := k\<rparr>))],
              animationFrameId := Some (nextFrameId ?e),
              frameQueue := frameQueue ?e @ [nextFrameId ?e],
              nextFrameId := nextFrameId ?e + 1 \<rparr>"
    using assms(3,4) by (intro tick_inside) simp_all
  finally show ?thesis by simp
qed

subsection \<open>State notifications\<close>

lemma ceilDiv1000_bounds:
  "0 \<le> m \<Longrightarrow> m \<le> d * 1000 \<Longrightarrow> 0 \<le> ceilDiv1000 m \<and> ceilDiv1000 m \<le> d"
  unfolding ceilDiv1000_def by linarith

lemma ceilDiv1000_zero [simp]: "ceilDiv1000 0 = 0"
  by (simp add: ceilDiv1000_def)

lemma buildState_timeRemaining:
  assumes "\<forall>x\<in>set (routine e). 0 \<le> duration x"
  shows "timeRemainingInRange (routine e) (OnTick (buildState now e))"
proof (cases "0 \<le> currentIntervalIndex e \<and> currentIntervalIndex e < int (length (routine e))")
  case True
  then have "nat (currentIntervalIndex e) < length (routine e)" by linarith
  then have d: "0 \<le> duration (routine e ! nat (currentIntervalIndex e))"
    using assms nth_mem by blast
  have *: "\<And>x. 0 \<le> max 0 (duration (routine e ! nat (currentIntervalIndex e)) * 1000 - max 0 x) \<and>
       max 0 (duration (routine e ! nat (currentIntervalIndex e)) * 1000 - max 0 x)
        \<le> duration (routine e ! nat (currentIntervalIndex e)) * 1000"
    using d by auto
  have "routine e \<noteq> []" using True by auto
  with True show ?thesis
    using ceilDiv1000_bounds [OF * [THEN conjunct1] * [THEN conjunct2]]
    by (simp add: timeRemainingInRange_def buildState_def getCurrentInterval_def at_def Let_def)
next
  case False
  then show ?thesis
    by (auto simp add: timeRemainingInRange_def buildState_def getCurrentInterval_def at_def Let_def)
qed

lemma inRange_updateState:
  assumes "\<forall>x\<in>set (routine e). 0 \<le> duration x"
  shows "\<exists>new. callbacks (updateState now e) = callbacks e @ new \<and>
           (\<forall>n\<in>set new. timeRemainingInRange (routine (updateState now e)) n)"
  using buildState_timeRemaining [OF assms, of now]
  by (simp add: updateState_def onTick_def)

lemma inRange_tick:
  assumes "\<forall>x\<in>set (routine e). 0 \<le> duration x"
  shows "\<exists>new. callbacks (tick now e) = callbacks e @ new \<and>
           (\<forall>n\<in>set new. timeRemainingInRange (routine (tick now e)) n)"
proof -
  let ?k = "findIntervalIndex (routine e) (now - startTime e - pausedTime e) 0 0"
  have a: "timeRemainingInRange (routine e) (OnTick (buildState now (e\<lparr>currentIntervalIndex := ?k\<rparr>)))"
    using buildState_timeRemaining [of "e\<lparr>currentIntervalIndex := ?k\<rparr>" now] assms by simp
  have b: "timeRemainingInRange (routine e) (OnTick (buildState now e))"
    using buildState_timeRemaining [OF assms] .
  show ?thesis
    using a b
    by (simp add: tick_def Let_def updateState_def onTick_def onIntervalChange_def onComplete_def
          requestAnimationFrame_def timeRemainingInRange_def)
qed

lemma cancelPendingFrame_fields [simp]:
  "startTime (cancelPendingFrame e) = startTime e"
  "pausedTime (cancelPendingFrame e) = pausedTime e"
  "pauseStartTime (cancelPendingFrame e) = pauseStartTime e"
  "routine (cancelPendingFrame e) = routine e"
  "currentIntervalIndex (cancelPendingFrame e) = currentIntervalIndex e"
  "isRunning (cancelPendingFrame e) = isRunning e"
  "isPaused (cancelPendingFrame e) = isPaused e"
  "callbacks (cancelPendingFrame e) = callbacks e"
  "nextFrameId (cancelPendingFrame e) = nextFrameId e"
  by (simp_all add: cancelPendingFrame_def split: option.split)

lemma buildState_cancelPendingFrame [simp]:
  "buildState now (cancelPendingFrame e) = buildState now e"
  by (simp add: cancelPendingFrame_def split: option.split)

lemma updateState_fields [simp]:
  "startTime (updateState now e) = startTime e"
  "pausedTime (updateState now e) = pausedTime e"
  "pauseStartTime (updateState now e) = pauseStartTime e"
  "routine (updateState now e) = routine e"
  "currentIntervalIndex (updateState now e) = currentIntervalIndex e"
  "isRunning (updateState now e) = isRunning e"
  "isPaused (updateState now e) = isPaused e"
  "callbacks (updateState now e) = callbacks e @ [OnTick (buildState now e)]"
  "frameQueue (updateState now e) = frameQueue e"
  "animationFrameId (updateState now e) = animationFrameId e"
  "nextFrameId (updateState now e) = nextFrameId e"
  by (simp_all add: updateState_def onTick_def)

lemma buildState_updateState [simp]:
  "buildState t (updateState now e) = buildState t e"
  by (simp add: updateState_def onTick_def)

lemma inRange_reset:
  assumes "\<forall>x\<in>set (routine e). 0 \<le> duration x"
  shows "\<exists>new. callbacks (reset now e) = callbacks e @ new \<and>
           (\<forall>n\<in>set new. timeRemainingInRange (routine (reset now e)) n)"
  using buildState_timeRemaining [of "e\<lparr> isRunning := False, isPaused := False, currentIntervalIndex := 0,
              startTime := 0, pausedTime := 0, pauseStartTime := 0 \<rparr>" now] assms
  by (simp add: reset_def)

lemma inRange_setRoutine:
  assumes "\<forall>x\<in>set r. 0 \<le> duration x"
  shows "\<exists>new. callbacks (setRoutine now r e) = callbacks e @ new \<and>
           (\<forall>n\<in>set new. timeRemainingInRange (routine (setRoutine now r e)) n)"
  using buildState_timeRemaining [of "e\<lparr> routine := r, isRunning := False, isPaused := False, currentIntervalIndex := 0,
              startTime := 0, pausedTime := 0, pauseStartTime := 0 \<rparr>" now] assms
  by (simp add: setRoutine_def reset_def)

lemma inRange_pause:
  assumes "\<forall>x\<in>set (routine e). 0 \<le> duration x"
  shows "\<exists>new. callbacks (pause now e) = callbacks e @ new \<and>
           (\<forall>n\<in>set new. timeRemainingInRange (routine (pause now e)) n)"
  using buildState_timeRemaining [of "e\<lparr> isPaused := True, isRunning := False, pauseStartTime := now \<rparr>" now] assms
  by (simp add: pause_def)

lemma inRange_start:
  assumes "\<forall>x\<in>set (routine e). 0 \<le> duration x"
  shows "\<exists>new. callbacks (start now e) = callbacks e @ new \<and>
           (\<forall>n\<in>set new. timeRemainingInRange (routine (start now e)) n)"
proof -
  have a: "\<exists>new. callbacks (tick now (e\<lparr> pausedTime := pausedTime e + (now - pauseStartTime e), isPaused := False, isRunning := True \<rparr>))
              = callbacks e @ new \<and>
           (\<forall>n\<in>set new. timeRemainingInRange (routine (tick now (e\<lparr> pausedTime := pausedTime e + (now - pauseStartTime e), isPaused := False, isRunning := True \<rparr>))) n)"
    using inRange_tick [of "e\<lparr> pausedTime := pausedTime e + (now - pauseStartTime e), isPaused := False, isRunning := True \<rparr>" now] assms
    by simp
  have b: "\<exists>new. callbacks (tick now (e\<lparr> startTime := now, pausedTime := 0, isRunning := True \<rparr>))
              = callbacks e @ new \<and>
           (\<forall>n\<in>set new. timeRemainingInRange (routine (tick now (e\<lparr> startTime := now, pausedTime := 0, isRunning := True \<rparr>))) n)"
    using inRange_tick [of "e\<lparr> startTime := now, pausedTime := 0, isRunning := True \<rparr>" now] assms
    by simp
  show ?thesis using a b by (simp add: start_def Let_def)
qed

lemma inRange_adjust:
  assumes "\<forall>x\<in>set (routine e). 0 \<le> duration x"
  shows "routine (adjustTimerForNewInterval now e) = routine e \<and>
         (\<exists>s. callbacks (adjustTimerForNewInterval now e) = callbacks e @ [OnTick s] \<and>
           timeRemainingInRange (routine e) (OnTick s))"
  using buildState_timeRemaining [of "e\<lparr> startTime := now - sumDurationMs (slice0 (routine e) (currentIntervalIndex e)), pausedTime := 0 \<rparr>" now] assms
  by (simp add: adjustTimerForNewInterval_def Let_def)

lemma inRange_nextInterval:
  assumes "\<forall>x\<in>set (routine e). 0 \<le> duration x"
  shows "\<exists>new. callbacks (nextInterval now e) = callbacks e @ new \<and>
           (\<forall>n\<in>set new. timeRemainingInRange (routine (nextInterval now e)) n)"
  using inRange_adjust [of "e\<lparr> currentIntervalIndex := currentIntervalIndex e + 1 \<rparr>" now] assms
  by (auto simp add: nextInterval_def Let_def onIntervalChange_def timeRemainingInRange_def)

lemma inRange_previousInterval:
  assumes "\<forall>x\<in>set (routine e). 0 \<le> duration x"
  shows "\<exists>new. callbacks (previousInterval now e) = callbacks e @ new \<and>
           (\<forall>n\<in>set new. timeRemainingInRange (routine (previousInterval now e)) n)"
  using inRange_adjust [of "e\<lparr> currentIntervalIndex := currentIntervalIndex e - 1 \<rparr>" now] assms
  by (auto simp add: previousInterval_def Let_def onIntervalChange_def timeRemainingInRange_def)

lemma inRange_frame:
  assumes "\<forall>x\<in>set (routine e). 0 \<le> duration x"
  shows "\<exists>new. callbacks (frame now e) = callbacks e @ new \<and>
           (\<forall>n\<in>set new. timeRemainingInRange (routine (frame now e)) n)"
proof (cases "frameQueue e")
  case Nil
  then show ?thesis by (simp add: frame_def)
next
  case (Cons h q)
  then show ?thesis
    using inRange_tick [of "e\<lparr>frameQueue := q\<rparr>" now] assms by (simp add: frame_def)
qed

lemma inRange_destroy:
  "\<exists>new. callbacks (destroy e) = callbacks e @ new \<and>
           (\<forall>n\<in>set new. timeRemainingInRange (routine (destroy e)) n)"
  by (simp add: destroy_def split: option.split)

lemma routine_tick [simp]: "routine (tick now e) = routine e"
  by (simp add: tick_def Let_def onComplete_def onIntervalChange_def requestAnimationFrame_def)

lemma routine_ops [simp]:
  "routine (reset now e) = routine e"
  "routine (setRoutine now r e) = r"
  "routine (start now e) = routine e"
  "routine (pause now e) = routine e"
  "routine (adjustTimerForNewInterval now e) = routine e"
  "routine (nextInterval now e) = routine e"
  "routine (previousInterval now e) = routine e"
  "routine (destroy e) = routine e"
  "routine (frame now e) = routine e"
  by (simp_all add: reset_def setRoutine_def start_def pause_def adjustTimerForNewInterval_def
        nextInterval_def previousInterval_def destroy_def frame_def Let_def onIntervalChange_def
        split: option.split list.split)

lemmas engine_defs =
  newTimerEngine_def onTick_def onIntervalChange_def onComplete_def requestAnimationFrame_def
  cancelPendingFrame_def at_def slice0_def ceilDiv1000_def floorDiv1000_def
  getCurrentInterval_def getNextInterval_def buildState_def updateState_def tick_def
  reset_def setRoutine_def start_def pause_def adjustTimerForNewInterval_def
  nextInterval_def previousInterval_def destroy_def frame_def Let_def

lemma ceilDiv1000_mult [simp]: "ceilDiv1000 (d * 1000) = d"
  by (simp add: ceilDiv1000_def)

lemma floorDiv1000_sumDurationMs: "floorDiv1000 (sumDurationMs r) = sum_list (map duration r)"
proof -
  have "sumDurationMs r = sum_list (map duration r) * 1000"
    by (induction r) (simp_all add: algebra_simps)
  then show ?thesis by (simp add: floorDiv1000_def)
qed

lemma buildState_idle_at_0:
  assumes "\<not> isRunning e" "\<not> isPaused e" "currentIntervalIndex e = 0"
  shows "buildState now e =
           \<lparr> TimerState.isRunning = False, TimerState.isPaused = False,
             TimerState.currentIntervalIndex = 0,
             timeRemaining = (case routine e of [] \<Rightarrow> 0 | x # _ \<Rightarrow> max 0 (duration x)),
             totalElapsed = 0,
             totalDuration = sum_list (map duration (routine e)) \<rparr>"
proof (cases "routine e")
  case Nil
  with assms show ?thesis
    by (simp add: buildState_def getCurrentInterval_def slice0_def floorDiv1000_def Let_def)
next
  case (Cons x xs)
  have "ceilDiv1000 (max 0 (duration x * 1000)) = max 0 (duration x)"
    by (cases "0 \<le> duration x") (simp_all add: max_def)
  with Cons assms show ?thesis
    using floorDiv1000_sumDurationMs [of "routine e"]
    by (simp add: buildState_def getCurrentInterval_def at_def slice0_def Let_def floorDiv1000_def)
qed

subsection \<open>Reachable states\<close>

lemma wellFormed_new: "wellFormed newTimerEngine"
  by (simp add: wellFormed_def newTimerEngine_def)

lemma wellFormed_tick: "wellFormed e \<Longrightarrow> wellFormed (tick now e)"
  using findIntervalIndex_bounds [of 0 "routine e" "now - startTime e - pausedTime e" 0]
  by (auto simp add: wellFormed_def tick_def Let_def onComplete_def onIntervalChange_def
        requestAnimationFrame_def)

lemma wellFormed_reset: "wellFormed (reset now e)"
  by (cases "routine e") (simp_all add: wellFormed_def reset_def)

lemma wellFormed_setRoutine: "wellFormed (setRoutine now r e)"
  by (cases r) (simp_all add: wellFormed_def setRoutine_def reset_def)

lemma wellFormed_start: "wellFormed e \<Longrightarrow> wellFormed (start now e)"
proof -
  assume w: "wellFormed e"
  have a: "wellFormed (e\<lparr> pausedTime := pausedTime e + (now - pauseStartTime e), isPaused := False, isRunning := True \<rparr>)"
    using w by (simp add: wellFormed_def)
  have b: "\<not> isPaused e \<Longrightarrow> wellFormed (e\<lparr> startTime := now, pausedTime := 0, isRunning := True \<rparr>)"
    using w by (simp add: wellFormed_def)
  show ?thesis
    using w wellFormed_tick [OF a] b [THEN wellFormed_tick]
    by (simp add: start_def Let_def)
qed

lemma wellFormed_pause: "wellFormed e \<Longrightarrow> wellFormed (pause now e)"
  by (simp add: wellFormed_def pause_def)

lemma wellFormed_nextInterval: "wellFormed e \<Longrightarrow> wellFormed (nextInterval now e)"
  by (auto simp add: wellFormed_def nextInterval_def onIntervalChange_def adjustTimerForNewInterval_def Let_def)

lemma wellFormed_previousInterval: "wellFormed e \<Longrightarrow> wellFormed (previousInterval now e)"
  by (auto simp add: wellFormed_def previousInterval_def onIntervalChange_def adjustTimerForNewInterval_def Let_def)

lemma wellFormed_destroy: "wellFormed e \<Longrightarrow> wellFormed (destroy e)"
  by (simp add: wellFormed_def destroy_def split: option.split)

lemma wellFormed_frame: "wellFormed e \<Longrightarrow> wellFormed (frame now e)"
proof (cases "frameQueue e")
  case Nil
  assume "wellFormed e"
  with Nil show ?thesis by (simp add: frame_def)
next
  case (Cons h q)
  assume "wellFormed e"
  then have "wellFormed (e\<lparr>frameQueue := q\<rparr>)" by (simp add: wellFormed_def)
  from wellFormed_tick [OF this] Cons show ?thesis by (simp add: frame_def)
qed

lemma wellFormed_exec: "wellFormed e \<Longrightarrow> wellFormed (exec ev e)"
proof -
  assume w: "wellFormed e"
  obtain now op where ev: "ev = (now, op)" by (cases ev)
  show ?thesis
    using w ev
    by (cases op)
       (simp_all add: wellFormed_setRoutine wellFormed_start wellFormed_pause wellFormed_reset
          wellFormed_nextInterval wellFormed_previousInterval wellFormed_destroy wellFormed_frame)
qed

lemma wellFormed_run: "wellFormed e \<Longrightarrow> wellFormed (run evs e)"
  by (induction evs arbitrary: e) (simp_all add: wellFormed_exec)

lemma wellFormed_reachable: "wellFormed (run evs newTimerEngine)"
  by (rule wellFormed_run [OF wellFormed_new])

subsection \<open>Navigation and the empty routine\<close>

lemma sumDurationMs_seconds: "sumDurationMs r = 1000 * sum_list (map duration r)"
  by (induction r) (simp_all add: algebra_simps)

lemma slice0_take: "0 \<le> k \<Longrightarrow> k \<le> int (length xs) \<Longrightarrow> slice0 xs k = take (nat k) xs"
  by (simp add: slice0_def Let_def min_def)

lemma adjustTimerForNewInterval_fields:
  "currentIntervalIndex (adjustTimerForNewInterval now e) = currentIntervalIndex e"
  "isRunning (adjustTimerForNewInterval now e) = isRunning e"
  "isPaused (adjustTimerForNewInterval now e) = isPaused e"
  "pauseStartTime (adjustTimerForNewInterval now e) = pauseStartTime e"
  "pausedTime (adjustTimerForNewInterval now e) = 0"
  "startTime (adjustTimerForNewInterval now e) = now - sumDurationMs (slice0 (routine e) (currentIntervalIndex e))"
  "frameQueue (adjustTimerForNewInterval now e) = frameQueue e"
  "callbacks (adjustTimerForNewInterval now e) =
     callbacks e @ [OnTick (buildState now (adjustTimerForNewInterval now e))]"
  by (simp_all add: adjustTimerForNewInterval_def Let_def)

lemma buildState_running_totalElapsed:
  "isRunning e \<Longrightarrow> totalElapsed (buildState now e) = floorDiv1000 (now - startTime e - pausedTime e)"
  by (simp add: buildState_def Let_def)

lemma buildState_index [simp]:
  "TimerState.currentIntervalIndex (buildState now e) = currentIntervalIndex e"
  "TimerState.isRunning (buildState now e) = isRunning e"
  "TimerState.isPaused (buildState now e) = isPaused e"
  by (simp_all add: buildState_def Let_def)

text \<open>A move to index \<open>K\<close> of a routine that has an interval at \<open>K\<close>.\<close>

lemma move_to:
  fixes now K :: int and e :: TimerEngine
  assumes "0 \<le> K" "K < int (length (routine e))"
  defines "e' \<equiv> onIntervalChange K (adjustTimerForNewInterval now (e\<lparr>currentIntervalIndex := K\<rparr>))"
  shows "currentIntervalIndex e' = K"
    and "isRunning e' = isRunning e" and "isPaused e' = isPaused e"
    and "startTime e' = now - 1000 * sum_list (map duration (take (nat K) (routine e)))"
    and "pausedTime e' = 0"
    and "callbacks e' = callbacks e @ [OnTick (buildState now e'), OnIntervalChange K]"
    and "isRunning e \<Longrightarrow> totalElapsed (buildState now e') = sum_list (map duration (take (nat K) (routine e)))"
proof -
  let ?a = "adjustTimerForNewInterval now (e\<lparr>currentIntervalIndex := K\<rparr>)"
  have sl: "slice0 (routine e) K = take (nat K) (routine e)"
    using assms(1,2) by (intro slice0_take) simp_all
  have st: "startTime ?a = now - 1000 * sum_list (map duration (take (nat K) (routine e)))"
    by (simp add: adjustTimerForNewInterval_fields sl sumDurationMs_seconds)
  have b: "buildState now e' = buildState now ?a"
    by (simp add: e'_def onIntervalChange_def)
  show "currentIntervalIndex e' = K" "isRunning e' = isRunning e" "isPaused e' = isPaused e"
    "pausedTime e' = 0"
    by (simp_all add: e'_def onIntervalChange_def adjustTimerForNewInterval_fields)
  show "startTime e' = now - 1000 * sum_list (map duration (take (nat K) (routine e)))"
    using st by (simp add: e'_def onIntervalChange_def)
  show "callbacks e' = callbacks e @ [OnTick (buildState now e'), OnIntervalChange K]"
    unfolding b by (simp add: e'_def onIntervalChange_def adjustTimerForNewInterval_fields)
  show "totalElapsed (buildState now e') = sum_list (map duration (take (nat K) (routine e)))"
    if "isRunning e"
  proof -
    have "isRunning ?a" using that by (simp add: adjustTimerForNewInterval_fields)
    then have "totalElapsed (buildState now ?a) = floorDiv1000 (now - startTime ?a - pausedTime ?a)"
      by (rule buildState_running_totalElapsed)
    then show ?thesis unfolding b st by (simp add: adjustTimerForNewInterval_fields floorDiv1000_def)
  qed
qed

lemma nextInterval_move:
  "currentIntervalIndex e < int (length (routine e)) - 1 \<Longrightarrow>
     nextInterval now e =
       onIntervalChange (currentIntervalIndex e + 1)
         (adjustTimerForNewInterval now (e\<lparr>currentIntervalIndex := currentIntervalIndex e + 1\<rparr>))"
  by (simp add: nextInterval_def Let_def adjustTimerForNewInterval_fields)

lemma previousInterval_move:
  "0 < currentIntervalIndex e \<Longrightarrow>
     previousInterval now e =
       onIntervalChange (currentIntervalIndex e - 1)
         (adjustTimerForNewInterval now (e\<lparr>currentIntervalIndex := currentIntervalIndex e - 1\<rparr>))"
  by (simp add: previousInterval_def Let_def adjustTimerForNewInterval_fields)

lemma buildState_idle_totalElapsed:
  "\<not> isRunning e \<Longrightarrow> \<not> isPaused e \<Longrightarrow> totalElapsed (buildState now e) = 0"
  by (simp add: buildState_def Let_def floorDiv1000_def)

lemma move_to_routine:
  "routine (onIntervalChange K (adjustTimerForNewInterval now (e\<lparr>currentIntervalIndex := K\<rparr>))) = routine e"
  by (simp add: onIntervalChange_def)

text \<open>After a move on a running engine, a re-evaluation at the same instant derives \<open>K\<close>.\<close>

lemma move_to_running_tick:
  fixes now K :: int and e :: TimerEngine
  assumes "0 \<le> K" "K < int (length (routine e))" "isRunning e"
    and "\<forall>x\<in>set (routine e). 0 \<le> duration x" "0 < duration (routine e ! nat K)"
  defines "e' \<equiv> onIntervalChange K (adjustTimerForNewInterval now (e\<lparr>currentIntervalIndex := K\<rparr>))"
  shows "currentIntervalIndex (tick now e') = K" and "isRunning (tick now e')"
proof -
  let ?r = "routine e"
  let ?T = "sumDurationMs (take (nat K) ?r)"
  have m: "isRunning e'" "startTime e' = now - 1000 * sum_list (map duration (take (nat K) ?r))"
    "pausedTime e' = 0" "routine e' = ?r"
    using move_to [OF assms(1,2), of now] assms(3) move_to_routine [of K now e]
    by (simp_all add: e'_def)
  have T: "now - startTime e' - pausedTime e' = ?T"
    by (simp add: m sumDurationMs_seconds)
  have j: "nat K < length ?r" using assms(1,2) by linarith
  have T0: "0 \<le> ?T"
    using assms(4) by (intro sumDurationMs_nonneg) (auto dest: in_set_takeD)
  have "(0 + ?T \<le> ?T \<and> ?T < 0 + ?T + duration (?r ! nat K) * 1000)
          = (findIntervalIndex ?r ?T 0 0 = 0 + int (nat K))"
    by (rule findIntervalIndex_span [OF assms(4) T0 j])
  then have k: "findIntervalIndex ?r ?T 0 0 = K" using assms(1,5) by simp
  have k': "K = findIntervalIndex (routine e') (now - startTime e' - pausedTime e') 0 0"
    unfolding T m(4) using k by simp
  have l: "K < int (length (routine e'))" using assms(2) m(4) by simp
  note eq = tick_inside [OF m(1) k' l]
  show "currentIntervalIndex (tick now e') = K" by (simp add: eq)
  show "isRunning (tick now e')" using m(1) by (simp add: eq)
qed

text \<open>After a move on an idle engine: no elapsed time, and \<open>start\<close> begins again at index 0.\<close>

lemma move_to_idle:
  fixes now K :: int and e :: TimerEngine
  assumes "0 \<le> K" "K < int (length (routine e))" "\<not> isRunning e" "\<not> isPaused e"
  defines "e' \<equiv> onIntervalChange K (adjustTimerForNewInterval now (e\<lparr>currentIntervalIndex := K\<rparr>))"
  shows "totalElapsed (buildState now e') = 0"
    and "0 < duration (hd (routine e)) \<Longrightarrow>
           isRunning (start t e') \<and> startTime (start t e') = t \<and> pausedTime (start t e') = 0 \<and>
           currentIntervalIndex (start t e') = 0"
proof -
  have m: "\<not> isRunning e'" "\<not> isPaused e'" "routine e' = routine e"
    using move_to [OF assms(1,2), of now] assms(3,4) move_to_routine [of K now e]
    by (simp_all add: e'_def)
  show "totalElapsed (buildState now e') = 0"
    using m(1,2) by (rule buildState_idle_totalElapsed)
  show "isRunning (start t e') \<and> startTime (start t e') = t \<and> pausedTime (start t e') = 0 \<and>
           currentIntervalIndex (start t e') = 0"
    if d: "0 < duration (hd (routine e))"
  proof -
    obtain x xs where r: "routine e = x # xs"
      using assms(1,2) by (cases "routine e") auto
    have k: "0 = findIntervalIndex (routine e') 0 0 0" using d r by (simp add: m(3) Let_def)
    have l: "(0::int) < int (length (routine e'))" using r by (simp add: m(3))
    have ne: "routine e' \<noteq> []" using r by (simp add: m(3))
    note s = start_idle [OF ne m(2) k l, of t]
    show ?thesis by (simp add: s)
  qed
qed

lemma empty_routine_noops:
  assumes "routine e = []" "currentIntervalIndex e = 0"
  shows "start now e = e" "nextInterval now e = e" "previousInterval now e = e"
  using assms by (simp_all add: start_def nextInterval_def previousInterval_def)

lemma empty_routine_run:
  assumes "\<forall>ev\<in>set evs. snd ev = Start \<or> snd ev = NextInterval \<or> snd ev = PreviousInterval"
    and "routine e = []" "currentIntervalIndex e = 0"
  shows "run evs e = e"
  using assms
proof (induction evs)
  case Nil
  show ?case by simp
next
  case (Cons ev evs)
  obtain now op where ev: "ev = (now, op)" by (cases ev)
  have "exec ev e = e"
    using Cons.prems ev by (auto simp add: empty_routine_noops)
  with Cons show ?case by simp
qed

subsection \<open>Running, pausing and completing\<close>

lemma findIntervalIndex_inside:
  assumes "\<forall>x\<in>set r. 0 \<le> duration x" "0 \<le> T" "T < sumDurationMs r"
  shows "findIntervalIndex r T 0 0 < int (length r)"
proof -
  have "findIntervalIndex r T 0 0 \<noteq> int (length r)"
    using findIntervalIndex_end [OF assms(1,2), of 0] assms(3) by simp
  moreover have "findIntervalIndex r T 0 0 \<le> int (length r)"
    using findIntervalIndex_bounds [of 0 r T 0] by simp
  ultimately show ?thesis by linarith
qed

text \<open>A tick of a running engine before the end of the routine: what it keeps and what it reports.\<close>

lemma buildState_tick_inside:
  "buildState t
     (e\<lparr> currentIntervalIndex := k, callbacks := c, animationFrameId := a,
        frameQueue := q, nextFrameId := n \<rparr>)
   = buildState t (e\<lparr>currentIntervalIndex := k\<rparr>)"
  by simp

lemma tick_before_end:
  assumes "isRunning e" "\<forall>x\<in>set (routine e). 0 \<le> duration x"
    and "startTime e + pausedTime e \<le> t" "t - startTime e - pausedTime e < sumDurationMs (routine e)"
  shows "isRunning (tick t e)" "isPaused (tick t e) = isPaused e"
    and "startTime (tick t e) = startTime e" "pausedTime (tick t e) = pausedTime e"
    and "pauseStartTime (tick t e) = pauseStartTime e"
    and "frameQueue (tick t e) \<noteq> []"
    and "last (callbacks (tick t e)) = OnTick (buildState t (tick t e))"
    and "totalElapsed (buildState t (tick t e)) = (t - startTime e - pausedTime e) div 1000"
proof -
  let ?k = "findIntervalIndex (routine e) (t - startTime e - pausedTime e) 0 0"
  have k: "?k < int (length (routine e))"
    using assms(2-4) by (intro findIntervalIndex_inside) simp_all
  note eq = tick_inside [OF assms(1) refl k]
  have b: "buildState t (tick t e) = buildState t (e\<lparr>currentIntervalIndex := ?k\<rparr>)"
    unfolding eq by (rule buildState_tick_inside)
  show "isRunning (tick t e)" using assms(1) by (simp add: eq)
  show "isPaused (tick t e) = isPaused e" by (simp add: eq)
  show "startTime (tick t e) = startTime e" by (simp add: eq)
  show "pausedTime (tick t e) = pausedTime e" by (simp add: eq)
  show "pauseStartTime (tick t e) = pauseStartTime e" by (simp add: eq)
  show "frameQueue (tick t e) \<noteq> []" by (simp add: eq)
  have "last (callbacks (tick t e)) = OnTick (buildState t (e\<lparr>currentIntervalIndex := ?k\<rparr>))"
    by (simp add: eq)
  then show "last (callbacks (tick t e)) = OnTick (buildState t (tick t e))"
    by (simp only: b)
  have "isRunning (e\<lparr>currentIntervalIndex := ?k\<rparr>)" using assms(1) by simp
  then have "totalElapsed (buildState t (e\<lparr>currentIntervalIndex := ?k\<rparr>)) =
             floorDiv1000 (t - startTime (e\<lparr>currentIntervalIndex := ?k\<rparr>) - pausedTime (e\<lparr>currentIntervalIndex := ?k\<rparr>))"
    by (rule buildState_running_totalElapsed)
  then show "totalElapsed (buildState t (tick t e)) = (t - startTime e - pausedTime e) div 1000"
    by (simp add: b floorDiv1000_def)
qed

lemma frame_before_end:
  assumes "isRunning e" "frameQueue e \<noteq> []" "\<forall>x\<in>set (routine e). 0 \<le> duration x"
    and "startTime e + pausedTime e \<le> t" "t - startTime e - pausedTime e < sumDurationMs (routine e)"
  shows "isRunning (frame t e)"
    and "startTime (frame t e) = startTime e" "pausedTime (frame t e) = pausedTime e"
    and "frameQueue (frame t e) \<noteq> []"
    and "last (callbacks (frame t e)) = OnTick (buildState t (frame t e))"
    and "totalElapsed (buildState t (frame t e)) = (t - startTime e - pausedTime e) div 1000"
proof -
  obtain h q where q: "frameQueue e = h # q" using assms(2) by (cases "frameQueue e") auto
  have f: "frame t e = tick t (e\<lparr>frameQueue := q\<rparr>)" using q by (simp add: frame_def)
  have a: "isRunning (e\<lparr>frameQueue := q\<rparr>)"
    "\<forall>x\<in>set (routine (e\<lparr>frameQueue := q\<rparr>)). 0 \<le> duration x"
    "startTime (e\<lparr>frameQueue := q\<rparr>) + pausedTime (e\<lparr>frameQueue := q\<rparr>) \<le> t"
    "t - startTime (e\<lparr>frameQueue := q\<rparr>) - pausedTime (e\<lparr>frameQueue := q\<rparr>)
       < sumDurationMs (routine (e\<lparr>frameQueue := q\<rparr>))"
    using assms by simp_all
  note t = tick_before_end [OF a]
  show "isRunning (frame t e)" "startTime (frame t e) = startTime e"
    "pausedTime (frame t e) = pausedTime e" "frameQueue (frame t e) \<noteq> []"
    "last (callbacks (frame t e)) = OnTick (buildState t (frame t e))"
    "totalElapsed (buildState t (frame t e)) = (t - startTime e - pausedTime e) div 1000"
    unfolding f using t by simp_all
qed

lemma frames_before_end:
  assumes "\<forall>t\<in>set ts. startTime e + pausedTime e \<le> t \<and> t - startTime e - pausedTime e < sumDurationMs (routine e)"
    and "isRunning e" "frameQueue e \<noteq> []" "\<forall>x\<in>set (routine e). 0 \<le> duration x"
  shows "isRunning (run (frames ts) e) \<and> startTime (run (frames ts) e) = startTime e \<and>
         pausedTime (run (frames ts) e) = pausedTime e \<and> frameQueue (run (frames ts) e) \<noteq> [] \<and>
         routine (run (frames ts) e) = routine e"
  using assms
proof (induction ts arbitrary: e)
  case Nil
  then show ?case by simp
next
  case (Cons t ts)
  have t: "startTime e + pausedTime e \<le> t" "t - startTime e - pausedTime e < sumDurationMs (routine e)"
    using Cons.prems(1) by simp_all
  note f = frame_before_end [OF Cons.prems(2,3,4) t]
  have "isRunning (run (frames ts) (frame t e)) \<and>
        startTime (run (frames ts) (frame t e)) = startTime (frame t e) \<and>
        pausedTime (run (frames ts) (frame t e)) = pausedTime (frame t e) \<and>
        frameQueue (run (frames ts) (frame t e)) \<noteq> [] \<and>
        routine (run (frames ts) (frame t e)) = routine (frame t e)"
    using Cons.prems f by (intro Cons.IH) simp_all
  then show ?case using f by simp
qed

lemma buildState_paused_totalElapsed:
  "\<not> isRunning e \<Longrightarrow> isPaused e \<Longrightarrow>
     totalElapsed (buildState now e) = floorDiv1000 (pauseStartTime e - startTime e - pausedTime e)"
  by (simp add: buildState_def Let_def)

lemma pause_running:
  assumes "isRunning e"
  shows "isRunning (pause now e) = False" "isPaused (pause now e) = True"
    and "pauseStartTime (pause now e) = now" "startTime (pause now e) = startTime e"
    and "pausedTime (pause now e) = pausedTime e" "routine (pause now e) = routine e"
    and "last (callbacks (pause now e)) = OnTick (buildState now (pause now e))"
    and "totalElapsed (buildState now (pause now e)) = (now - startTime e - pausedTime e) div 1000"
proof -
  let ?p = "e\<lparr> isPaused := True, isRunning := False, pauseStartTime := now \<rparr>"
  have eq: "pause now e = updateState now (cancelPendingFrame ?p)"
    using assms by (simp add: pause_def)
  show "isRunning (pause now e) = False" "isPaused (pause now e) = True"
    "pauseStartTime (pause now e) = now" "startTime (pause now e) = startTime e"
    "pausedTime (pause now e) = pausedTime e" "routine (pause now e) = routine e"
    "last (callbacks (pause now e)) = OnTick (buildState now (pause now e))"
    unfolding eq by simp_all
  show "totalElapsed (buildState now (pause now e)) = (now - startTime e - pausedTime e) div 1000"
    unfolding eq by (simp add: buildState_paused_totalElapsed floorDiv1000_def)
qed

text \<open>An engine that is not running: frames, \<open>pause\<close> and \<open>destroy\<close> notify nothing.\<close>

lemma quiet_step:
  assumes "\<not> isRunning e" "snd ev = Frame \<or> snd ev = Pause \<or> snd ev = Destroy"
  shows "\<not> isRunning (exec ev e)" "isPaused (exec ev e) = isPaused e"
    and "callbacks (exec ev e) = callbacks e"
    and "length (frameQueue (exec ev e)) \<le> length (frameQueue e)"
    and "nextFrameId (exec ev e) = nextFrameId e"
proof -
  obtain t op where ev: "ev = (t, op)" by (cases ev)
  have f: "\<not> isRunning (frame t e) \<and> isPaused (frame t e) = isPaused e \<and> callbacks (frame t e) = callbacks e \<and>
           length (frameQueue (frame t e)) \<le> length (frameQueue e) \<and> nextFrameId (frame t e) = nextFrameId e"
    using assms(1) by (cases "frameQueue e") (simp_all add: frame_def tick_def)
  have p: "pause t e = e" using assms(1) by (simp add: pause_def)
  have d: "\<not> isRunning (destroy e) \<and> isPaused (destroy e) = isPaused e \<and> callbacks (destroy e) = callbacks e \<and>
           length (frameQueue (destroy e)) \<le> length (frameQueue e) \<and> nextFrameId (destroy e) = nextFrameId e"
    using assms(1) by (simp add: destroy_def split: option.split)
  from assms(2) ev have "op = Frame \<or> op = Pause \<or> op = Destroy" by simp
  then show "\<not> isRunning (exec ev e)" "isPaused (exec ev e) = isPaused e"
    "callbacks (exec ev e) = callbacks e"
    "length (frameQueue (exec ev e)) \<le> length (frameQueue e)"
    "nextFrameId (exec ev e) = nextFrameId e"
    using f p d assms(1) ev by auto
qed

lemma quiet_run:
  assumes "\<not> isRunning e" "\<forall>ev\<in>set evs. snd ev = Frame \<or> snd ev = Pause \<or> snd ev = Destroy"
  shows "\<not> isRunning (run evs e) \<and> isPaused (run evs e) = isPaused e \<and>
         callbacks (run evs e) = callbacks e \<and>
         length (frameQueue (run evs e)) \<le> length (frameQueue e) \<and>
         nextFrameId (run evs e) = nextFrameId e"
  using assms
proof (induction evs arbitrary: e)
  case Nil
  then show ?case by simp
next
  case (Cons ev evs)
  have s: "snd ev = Frame \<or> snd ev = Pause \<or> snd ev = Destroy" using Cons.prems(2) by simp
  note q = quiet_step [OF Cons.prems(1) s]
  have "\<not> isRunning (run evs (exec ev e)) \<and> isPaused (run evs (exec ev e)) = isPaused (exec ev e) \<and>
         callbacks (run evs (exec ev e)) = callbacks (exec ev e) \<and>
         length (frameQueue (run evs (exec ev e))) \<le> length (frameQueue (exec ev e)) \<and>
         nextFrameId (run evs (exec ev e)) = nextFrameId (exec ev e)"
    using q(1) Cons.prems(2) by (intro Cons.IH) simp_all
  then show ?case using q by simp
qed

lemma reset_fields:
  "isRunning (reset t e) = False" "isPaused (reset t e) = False"
  "currentIntervalIndex (reset t e) = 0" "routine (reset t e) = routine e"
  by (simp_all add: reset_def)

section \<open>The claims\<close>

subsection \<open>C1: the derived interval index\<close>

text \<open>
  Claim C1 fails on the code, through the defect of claim C4. The scan of \<open>tick\<close> leaves
  the loop at the first interval whose end lies beyond \<open>totalElapsedMs\<close>; it never tests the
  start of the span. With the test suite's routine started at 0, paused at 1000, moved to
  the next interval at 21000 and resumed at 22000, the engine is running with
  \<open>startTime = 16000\<close> and \<open>pausedTime = 21000\<close>. At the frame at 22016 the elapsed time is
  \<open>-14984\<close> milliseconds: no span of the routine contains it and it has not reached the
  total duration, yet the scan derives index 0 and the engine takes it as its current index.
\<close>

theorem tick_after_paused_navigation_derives_index_outside_every_span:
  "isRunning (run [(0, SetRoutine sampleRoutine), (0, Start), (1000, Pause),
                   (21000, NextInterval), (22000, Start)] newTimerEngine) = True \<and>
   startTime (run [(0, SetRoutine sampleRoutine), (0, Start), (1000, Pause),
                   (21000, NextInterval), (22000, Start)] newTimerEngine) = 16000 \<and>
   pausedTime (run [(0, SetRoutine sampleRoutine), (0, Start), (1000, Pause),
                    (21000, NextInterval), (22000, Start)] newTimerEngine) = 21000 \<and>
   routine (run [(0, SetRoutine sampleRoutine), (0, Start), (1000, Pause),
                 (21000, NextInterval), (22000, Start)] newTimerEngine) = sampleRoutine \<and>
   findIntervalIndex sampleRoutine (22016 - 16000 - 21000) 0 0 = 0 \<and>
   list_all
     (\<lambda>i. \<not> (sumDurationMs (take i sampleRoutine) \<le> 22016 - 16000 - 21000 \<and>
              22016 - 16000 - 21000
                < sumDurationMs (take i sampleRoutine) + duration (sampleRoutine ! i) * 1000))
     [0, 1, 2, 3, 4] \<and>
   \<not> sumDurationMs sampleRoutine \<le> 22016 - 16000 - 21000 \<and>
   currentIntervalIndex (run [(0, SetRoutine sampleRoutine), (0, Start), (1000, Pause),
                              (21000, NextInterval), (22000, Start), (22016, Frame)]
                           newTimerEngine) = 0 \<and>
   last (callbacks (run [(0, SetRoutine sampleRoutine), (0, Start), (1000, Pause),
                         (21000, NextInterval), (22000, Start), (22016, Frame)]
                      newTimerEngine)) =
     OnTick \<lparr> TimerState.isRunning = True, TimerState.isPaused = False,
              TimerState.currentIntervalIndex = 0, timeRemaining = 5, totalElapsed = - 15,
              totalDuration = 35 \<rparr>"
  by (simp add: engine_defs sampleRoutine_def sumDurationMs_def)

text \<open>
  The scan itself does what the claim says whenever the elapsed time it is given is not
  negative. For every tick of a running engine with \<open>now - startTime - pausedTime\<close> not
  negative and no negative duration in the routine, the index the scan derives is the one
  index \<open>i\<close> whose half-open span \<open>[before i, before i + duration i)\<close> in milliseconds contains
  the elapsed time, where \<open>before i\<close> is the sum of the durations of the intervals in front of
  \<open>i\<close>; an instant on a boundary therefore belongs to the later interval, and the index is
  the length of the routine exactly when the elapsed time has reached the sum of all
  durations. A derived index inside the routine becomes the current index of the engine.
  In particular: after loading \<open>[{A, 5s}, {B, 10s}]\<close> into any engine and starting at \<open>t0\<close>,
  whatever frames fire before \<open>t0 + 5000\<close>, the frame at \<open>t0 + 5000\<close> leaves the current
  index at 1 and adds exactly one interval-changed notification, with payload 1.
\<close>

theorem tick_derives_containing_interval:
  "(\<forall>e now. isRunning e \<and> (\<forall>x\<in>set (routine e). 0 \<le> duration x) \<and> startTime e + pausedTime e \<le> now \<longrightarrow>
      (let totalElapsedMs = now - startTime e - pausedTime e;
           k = findIntervalIndex (routine e) totalElapsedMs 0 0;
           n = length (routine e)
       in 0 \<le> k \<and> k \<le> int n \<and>
          (\<forall>i<n. (sumDurationMs (take i (routine e)) \<le> totalElapsedMs \<and>
                   totalElapsedMs < sumDurationMs (take i (routine e)) + duration (routine e ! i) * 1000)
                  = (k = int i)) \<and>
          ((sumDurationMs (routine e) \<le> totalElapsedMs) = (k = int n)) \<and>
          (k < int n \<longrightarrow> currentIntervalIndex (tick now e) = k \<and> isRunning (tick now e)) \<and>
          (k = int n \<longrightarrow> \<not> isRunning (tick now e) \<and> currentIntervalIndex (tick now e) = currentIntervalIndex e)))
   \<and>
   (\<forall>e0 tl t0 ts ta ca tb cb.
      (\<forall>t\<in>set ts. t0 \<le> t \<and> t < t0 + 5000) \<longrightarrow>
      (let A = \<lparr>label = ''A'', duration = 5, type = ta, color = ca\<rparr>;
           B = \<lparr>label = ''B'', duration = 10, type = tb, color = cb\<rparr>;
           e = run ([(tl, SetRoutine [A, B]), (t0, Start)] @ frames ts @ [(t0 + 5000, Frame)]) e0
       in currentIntervalIndex e = 1 \<and>
          intervalChanges (callbacks e) = intervalChanges (callbacks e0) @ [1]))"
proof (intro conjI allI impI)
  fix e :: TimerEngine and now :: int
  assume h: "isRunning e \<and> (\<forall>x\<in>set (routine e). 0 \<le> duration x) \<and> startTime e + pausedTime e \<le> now"
  let ?T = "now - startTime e - pausedTime e"
  let ?k = "findIntervalIndex (routine e) ?T 0 0"
  have nn: "\<forall>x\<in>set (routine e). 0 \<le> duration x" and T0: "0 \<le> ?T" and run: "isRunning e"
    using h by simp_all
  have b: "0 \<le> ?k \<and> ?k \<le> int (length (routine e))"
    using findIntervalIndex_bounds [of 0 "routine e" ?T 0] by simp
  have s: "\<forall>i<length (routine e).
             (sumDurationMs (take i (routine e)) \<le> ?T \<and>
              ?T < sumDurationMs (take i (routine e)) + duration (routine e ! i) * 1000) = (?k = int i)"
    using findIntervalIndex_span [OF nn T0, of _ 0] by simp
  have en: "(sumDurationMs (routine e) \<le> ?T) = (?k = int (length (routine e)))"
    using findIntervalIndex_end [OF nn T0, of 0] by simp
  have inside: "?k < int (length (routine e)) \<longrightarrow> currentIntervalIndex (tick now e) = ?k \<and> isRunning (tick now e)"
    using run by (simp add: tick_inside [OF run refl])
  have past: "?k = int (length (routine e)) \<longrightarrow> \<not> isRunning (tick now e) \<and> currentIntervalIndex (tick now e) = currentIntervalIndex e"
    using run by (simp add: tick_complete)
  show "let totalElapsedMs = now - startTime e - pausedTime e;
           k = findIntervalIndex (routine e) totalElapsedMs 0 0;
           n = length (routine e)
       in 0 \<le> k \<and> k \<le> int n \<and>
          (\<forall>i<n. (sumDurationMs (take i (routine e)) \<le> totalElapsedMs \<and>
                   totalElapsedMs < sumDurationMs (take i (routine e)) + duration (routine e ! i) * 1000)
                  = (k = int i)) \<and>
          ((sumDurationMs (routine e) \<le> totalElapsedMs) = (k = int n)) \<and>
          (k < int n \<longrightarrow> currentIntervalIndex (tick now e) = k \<and> isRunning (tick now e)) \<and>
          (k = int n \<longrightarrow> \<not> isRunning (tick now e) \<and> currentIntervalIndex (tick now e) = currentIntervalIndex e)"
    unfolding Let_def using b s en inside past by blast
next
  fix e0 :: TimerEngine and tl t0 :: int and ts :: "int list" and ta tb :: IntervalType and ca cb :: "string option"
  assume ts: "\<forall>t\<in>set ts. t0 \<le> t \<and> t < t0 + 5000"
  let ?A = "\<lparr>label = ''A'', duration = 5, type = ta, color = ca\<rparr>"
  let ?B = "\<lparr>label = ''B'', duration = 10, type = tb, color = cb\<rparr>"
  let ?l = "setRoutine tl [?A, ?B] e0"
  let ?s = "start t0 ?l"
  let ?f = "run (frames ts) ?s"
  have l: "routine ?l = [?A, ?B]" "currentIntervalIndex ?l = 0" "\<not> isPaused ?l"
    "intervalChanges (callbacks ?l) = intervalChanges (callbacks e0)"
    by (simp_all add: setRoutine_fields setRoutine_callbacks)
  have k0: "findIntervalIndex (routine ?l) 0 0 0 = 0" by (simp add: l Let_def)
  have "start t0 ?l = ?l\<lparr> startTime := t0, pausedTime := 0, isRunning := True,
              currentIntervalIndex := 0,
              callbacks := callbacks ?l @ (if 0 \<noteq> currentIntervalIndex ?l then [OnIntervalChange 0] else [])
                 @ [OnTick (buildState t0 (?l\<lparr> startTime := t0, pausedTime := 0, isRunning := True, currentIntervalIndex := 0\<rparr>))],
              animationFrameId := Some (nextFrameId ?l),
              frameQueue := frameQueue ?l @ [nextFrameId ?l],
              nextFrameId := nextFrameId ?l + 1 \<rparr>"
    using l k0 by (intro start_idle) simp_all
  then have s: "isRunning ?s" "startTime ?s = t0" "pausedTime ?s = 0" "routine ?s = [?A, ?B]"
    "currentIntervalIndex ?s = 0" "frameQueue ?s \<noteq> []"
    "intervalChanges (callbacks ?s) = intervalChanges (callbacks e0)"
    using l by simp_all
  have f: "isRunning ?f \<and> startTime ?f = t0 \<and> pausedTime ?f = 0 \<and>
         routine ?f = [?A, ?B] \<and> currentIntervalIndex ?f = 0 \<and> frameQueue ?f \<noteq> [] \<and>
         intervalChanges (callbacks ?f) = intervalChanges (callbacks ?s)"
    using ts s by (intro frames_first_interval) simp_all
  then obtain h q where q: "frameQueue ?f = h # q" by (cases "frameQueue ?f") auto
  let ?g = "?f\<lparr>frameQueue := q\<rparr>"
  have k1: "findIntervalIndex (routine ?g) (t0 + 5000 - startTime ?g - pausedTime ?g) 0 0 = 1"
    using f by (simp add: Let_def)
  have "frame (t0 + 5000) ?f = tick (t0 + 5000) ?g" using q by (simp add: frame_def)
  also have "\<dots> = ?g\<lparr> currentIntervalIndex := 1,
              callbacks := callbacks ?g @ (if 1 \<noteq> currentIntervalIndex ?g then [OnIntervalChange 1] else [])
                             @ [OnTick (buildState (t0 + 5000) (?g\<lparr>currentIntervalIndex := 1\<rparr>))],
              animationFrameId := Some (nextFrameId ?g),
              frameQueue := frameQueue ?g @ [nextFrameId ?g],
              nextFrameId := nextFrameId ?g + 1 \<rparr>"
    using f k1 by (intro tick_inside) simp_all
  finally have fin: "currentIntervalIndex (frame (t0 + 5000) ?f) = 1"
    "intervalChanges (callbacks (frame (t0 + 5000) ?f)) = intervalChanges (callbacks e0) @ [1]"
    using f s(7) by simp_all
  show "let A = ?A; B = ?B;
           e = run ([(tl, SetRoutine [A, B]), (t0, Start)] @ frames ts @ [(t0 + 5000, Frame)]) e0
       in currentIntervalIndex e = 1 \<and>
          intervalChanges (callbacks e) = intervalChanges (callbacks e0) @ [1]"
    unfolding Let_def using fin by simp
qed

theorem tick_derives_containing_interval_witness:
  "(let e = start 0 (setRoutine 0 [\<lparr>label = ''A'', duration = 5, type = work, color = None\<rparr>,
                                   \<lparr>label = ''B'', duration = 10, type = rest, color = None\<rparr>] newTimerEngine)
    in isRunning e \<and> list_all (\<lambda>x. 0 \<le> duration x) (routine e) \<and> startTime e + pausedTime e \<le> 5000 \<and>
       findIntervalIndex (routine e) (5000 - startTime e - pausedTime e) 0 0 = 1 \<and>
       currentIntervalIndex (tick 5000 e) = 1)
   \<and> list_all (\<lambda>t. (0::int) \<le> t \<and> t < 0 + 5000) [16, 4992]
   \<and> (let e = run [(0, SetRoutine [\<lparr>label = ''A'', duration = 5, type = work, color = None\<rparr>,
                                     \<lparr>label = ''B'', duration = 10, type = rest, color = None\<rparr>]),
                     (0, Start), (16, Frame), (4992, Frame), (5000, Frame)] newTimerEngine
       in currentIntervalIndex e = 1 \<and> intervalChanges (callbacks e) = [1])"
proof -
  let ?A = "\<lparr>label = ''A'', duration = 5, type = work, color = None\<rparr>"
  let ?B = "\<lparr>label = ''B'', duration = 10, type = rest, color = None\<rparr>"
  let ?e = "start 0 (setRoutine 0 [?A, ?B] newTimerEngine)"
  have e: "isRunning ?e" "routine ?e = [?A, ?B]" "startTime ?e = 0" "pausedTime ?e = 0"
    by (simp_all add: start_def setRoutine_def reset_def updateState_def onTick_def cancelPendingFrame_def
          tick_def requestAnimationFrame_def newTimerEngine_def Let_def)
  have h1: "isRunning ?e \<and> (\<forall>x\<in>set (routine ?e). 0 \<le> duration x) \<and> startTime ?e + pausedTime ?e \<le> 5000"
    by (simp add: e)
  have h2: "\<forall>t\<in>set [16, 4992]. (0::int) \<le> t \<and> t < 0 + 5000" by simp
  have k: "findIntervalIndex (routine ?e) (5000 - startTime ?e - pausedTime ?e) 0 0 = 1"
    by (simp add: e Let_def)
  from tick_derives_containing_interval
  have p1: "let totalElapsedMs = 5000 - startTime ?e - pausedTime ?e;
           k = findIntervalIndex (routine ?e) totalElapsedMs 0 0;
           n = length (routine ?e)
       in 0 \<le> k \<and> k \<le> int n \<and>
          (\<forall>i<n. (sumDurationMs (take i (routine ?e)) \<le> totalElapsedMs \<and>
                   totalElapsedMs < sumDurationMs (take i (routine ?e)) + duration (routine ?e ! i) * 1000)
                  = (k = int i)) \<and>
          ((sumDurationMs (routine ?e) \<le> totalElapsedMs) = (k = int n)) \<and>
          (k < int n \<longrightarrow> currentIntervalIndex (tick 5000 ?e) = k \<and> isRunning (tick 5000 ?e)) \<and>
          (k = int n \<longrightarrow> \<not> isRunning (tick 5000 ?e) \<and> currentIntervalIndex (tick 5000 ?e) = currentIntervalIndex ?e)"
    using h1 by blast
  have c1: "currentIntervalIndex (tick 5000 ?e) = 1"
    using p1 k unfolding Let_def by (simp add: e)
  from tick_derives_containing_interval
  have p2: "let A = ?A; B = ?B;
           e = run ([(0, SetRoutine [A, B]), (0, Start)] @ frames [16, 4992] @ [(0 + 5000, Frame)]) newTimerEngine
       in currentIntervalIndex e = 1 \<and>
          intervalChanges (callbacks e) = intervalChanges (callbacks newTimerEngine) @ [1]"
    using h2 by blast
  have c2: "currentIntervalIndex (run [(0, SetRoutine [?A, ?B]), (0, Start), (16, Frame), (4992, Frame), (5000, Frame)] newTimerEngine) = 1
      \<and> intervalChanges (callbacks (run [(0, SetRoutine [?A, ?B]), (0, Start), (16, Frame), (4992, Frame), (5000, Frame)] newTimerEngine)) = [1]"
    using p2 unfolding Let_def by (simp add: newTimerEngine_def)
  show ?thesis unfolding Let_def list_all_iff using h1 h2 k c1 c2 by blast
qed

subsection \<open>C2: a pause does not count as elapsed time\<close>

text \<open>
  Claim C2. Load a routine without negative durations into any engine, start it at \<open>t0\<close>,
  pause it \<open>E\<close> milliseconds later, resume it with \<open>start\<close> after a pause of \<open>P\<close>
  milliseconds and let it run \<open>F\<close> milliseconds more, with any frames in between and the
  routine not yet over (\<open>E + F\<close> is less than the total duration, so the engine is still
  running). Then the state notification of the frame at that instant reports
  \<open>totalElapsed = (E + F) div 1000\<close>: the whole seconds of \<open>E + F\<close>, whatever \<open>P\<close> is. The
  notification sent by \<open>pause\<close> itself reports \<open>E div 1000\<close>.
\<close>

theorem paused_time_is_excluded_from_totalElapsed:
  assumes "\<forall>x\<in>set r. 0 \<le> duration x"
    and "0 \<le> E" "0 \<le> P" "0 \<le> F" "E + F < sumDurationMs r"
    and "\<forall>t\<in>set ts1. t0 \<le> t \<and> t \<le> t0 + E"
    and "\<forall>t\<in>set ts2. t0 + E + P \<le> t \<and> t \<le> t0 + E + P + F"
  shows "(let paused = run ([(tload, SetRoutine r), (t0, Start)] @ frames ts1 @ [(t0 + E, Pause)]) e0;
              resumed = run ((t0 + E + P, Start) # frames ts2) paused;
              e = frame (t0 + E + P + F) resumed
          in last (callbacks paused) = OnTick (buildState (t0 + E) paused) \<and>
             totalElapsed (buildState (t0 + E) paused) = E div 1000 \<and>
             isRunning resumed \<and> isRunning e \<and>
             last (callbacks e) = OnTick (buildState (t0 + E + P + F) e) \<and>
             totalElapsed (buildState (t0 + E + P + F) e) = (E + F) div 1000)"
proof -
  let ?l = "setRoutine tload r e0"
  let ?s = "start t0 ?l"
  let ?f1 = "run (frames ts1) ?s"
  let ?p = "pause (t0 + E) ?f1"
  let ?q = "start (t0 + E + P) ?p"
  let ?f2 = "run (frames ts2) ?q"
  let ?e = "frame (t0 + E + P + F) ?f2"
  have tot: "0 < sumDurationMs r" using assms(2,4,5) by linarith
  then have ne: "r \<noteq> []" by auto
  have l: "routine ?l = r" "\<not> isPaused ?l" by (simp_all add: setRoutine_fields)
  \<comment> \<open>the fresh start\<close>
  have k0: "findIntervalIndex (routine ?l) 0 0 0 < int (length (routine ?l))"
    using assms(1) tot by (intro findIntervalIndex_inside) (simp_all add: l)
  note st = start_idle [OF _ l(2) refl k0, of t0]
  have s: "isRunning ?s" "startTime ?s = t0" "pausedTime ?s = 0" "routine ?s = r" "frameQueue ?s \<noteq> []"
    using ne l by (simp_all add: st)
  \<comment> \<open>frames of the first run\<close>
  have "isRunning ?f1 \<and> startTime ?f1 = startTime ?s \<and> pausedTime ?f1 = pausedTime ?s \<and>
        frameQueue ?f1 \<noteq> [] \<and> routine ?f1 = routine ?s"
    using assms(1,2,4,5,6) s by (intro frames_before_end) (auto simp add: s)
  then have f1: "isRunning ?f1" "startTime ?f1 = t0" "pausedTime ?f1 = 0" "routine ?f1 = r"
    using s by simp_all
  \<comment> \<open>the pause\<close>
  note pr = pause_running [OF f1(1), of "t0 + E"]
  have p: "\<not> isRunning ?p" "isPaused ?p" "pauseStartTime ?p = t0 + E" "startTime ?p = t0"
    "pausedTime ?p = 0" "routine ?p = r"
    using pr f1 by simp_all
  have pe: "totalElapsed (buildState (t0 + E) ?p) = E div 1000"
    using pr(8) f1 by simp
  \<comment> \<open>the resumption\<close>
  let ?p' = "?p\<lparr> pausedTime := pausedTime ?p + (t0 + E + P - pauseStartTime ?p), isPaused := False, isRunning := True \<rparr>"
  have q_eq: "?q = tick (t0 + E + P) ?p'"
    using p ne by (simp add: start_def)
  have p': "isRunning ?p'" "\<forall>x\<in>set (routine ?p'). 0 \<le> duration x"
    "startTime ?p' + pausedTime ?p' \<le> t0 + E + P"
    "t0 + E + P - startTime ?p' - pausedTime ?p' < sumDurationMs (routine ?p')"
    using p assms(1,2,3,4,5) by simp_all
  note tq = tick_before_end [OF p', folded q_eq]
  have rq: "routine ?q = r" using p by (simp add: q_eq)
  have q: "isRunning ?q" "startTime ?q = t0" "pausedTime ?q = P" "frameQueue ?q \<noteq> []"
    using tq p by simp_all
  \<comment> \<open>frames of the second run, and the last one\<close>
  have "isRunning ?f2 \<and> startTime ?f2 = startTime ?q \<and> pausedTime ?f2 = pausedTime ?q \<and>
        frameQueue ?f2 \<noteq> [] \<and> routine ?f2 = routine ?q"
    using assms(1,2,4,5,7) q rq by (intro frames_before_end) (auto simp add: q rq)
  then have f2: "isRunning ?f2" "startTime ?f2 = t0" "pausedTime ?f2 = P" "routine ?f2 = r"
    "frameQueue ?f2 \<noteq> []"
    using q rq by simp_all
  have c: "\<forall>x\<in>set (routine ?f2). 0 \<le> duration x"
    "startTime ?f2 + pausedTime ?f2 \<le> t0 + E + P + F"
    "t0 + E + P + F - startTime ?f2 - pausedTime ?f2 < sumDurationMs (routine ?f2)"
    using f2 assms(1,2,3,4,5) by simp_all
  note fe = frame_before_end [OF f2(1) f2(5) c]
  have ee: "totalElapsed (buildState (t0 + E + P + F) ?e) = (E + F) div 1000"
    using fe(6) f2 by (simp add: algebra_simps)
  show ?thesis
    unfolding Let_def using pr(7) pe f2(1) fe(1) fe(5) ee by simp
qed

theorem paused_time_is_excluded_from_totalElapsed_witness:
  "list_all (\<lambda>x. 0 \<le> duration x) sampleRoutine \<and>
   (2000::int) + 3000 < sumDurationMs sampleRoutine \<and>
   list_all (\<lambda>t. (0::int) \<le> t \<and> t \<le> 0 + 2000) [16, 1000] \<and>
   list_all (\<lambda>t. (0::int) + 2000 + 60000 \<le> t \<and> t \<le> 0 + 2000 + 60000 + 3000) [62016] \<and>
   (let e = run [(0, SetRoutine sampleRoutine), (0, Start), (16, Frame), (1000, Frame),
                 (2000, Pause), (62000, Start), (62016, Frame), (65000, Frame)] newTimerEngine
    in isRunning e \<and> last (callbacks e) = OnTick (buildState 65000 e) \<and>
       totalElapsed (buildState 65000 e) = 5)"
proof -
  have h1: "\<forall>x\<in>set sampleRoutine. 0 \<le> duration x" by (simp add: sampleRoutine_def)
  have h2: "(2000::int) + 3000 < sumDurationMs sampleRoutine" by (simp add: sampleRoutine_def)
  have h3: "\<forall>t\<in>set [16, 1000]. (0::int) \<le> t \<and> t \<le> 0 + 2000" by simp
  have h4: "\<forall>t\<in>set [62016]. (0::int) + 2000 + 60000 \<le> t \<and> t \<le> 0 + 2000 + 60000 + 3000" by simp
  have "let paused = run ([(0, SetRoutine sampleRoutine), (0, Start)] @ frames [16, 1000] @ [(0 + 2000, Pause)]) newTimerEngine;
              resumed = run ((0 + 2000 + 60000, Start) # frames [62016]) paused;
              e = frame (0 + 2000 + 60000 + 3000) resumed
          in last (callbacks paused) = OnTick (buildState (0 + 2000) paused) \<and>
             totalElapsed (buildState (0 + 2000) paused) = 2000 div 1000 \<and>
             isRunning resumed \<and> isRunning e \<and>
             last (callbacks e) = OnTick (buildState (0 + 2000 + 60000 + 3000) e) \<and>
             totalElapsed (buildState (0 + 2000 + 60000 + 3000) e) = (2000 + 3000) div 1000"
    by (rule paused_time_is_excluded_from_totalElapsed [OF h1 _ _ _ h2 h3 h4]) simp_all
  then have "let e = run [(0, SetRoutine sampleRoutine), (0, Start), (16, Frame), (1000, Frame),
                 (2000, Pause), (62000, Start), (62016, Frame), (65000, Frame)] newTimerEngine
    in isRunning e \<and> last (callbacks e) = OnTick (buildState 65000 e) \<and>
       totalElapsed (buildState 65000 e) = 5"
    unfolding Let_def by simp
  then show ?thesis using h1 h2 h3 h4 unfolding list_all_iff by blast
qed

subsection \<open>C3: the reported time remaining\<close>

text \<open>
  Claim C3. Whatever the engine's state and whatever happens to it (an operation or a frame,
  at any instant), every state notification sent during that event reports a
  \<open>timeRemaining\<close> that lies between 0 and the duration in seconds of the interval at the
  index the notification reports, and is 0 when there is no such interval (empty routine).
  The only assumption is the one the loader guarantees: the routine held while the
  notifications are sent has no negative duration.
\<close>

theorem state_notifications_timeRemaining_in_range:
  assumes "\<forall>x\<in>set (routine (exec ev e)). 0 \<le> duration x"
  shows "\<exists>new. callbacks (exec ev e) = callbacks e @ new \<and>
           (\<forall>n\<in>set new. timeRemainingInRange (routine (exec ev e)) n)"
proof -
  obtain now op where ev: "ev = (now, op)" by (cases ev)
  show ?thesis
  proof (cases op)
    case (SetRoutine r)
    with ev assms show ?thesis using inRange_setRoutine [of r now e] by simp
  next
    case Start
    with ev assms show ?thesis using inRange_start [of e now] by simp
  next
    case Pause
    with ev assms show ?thesis using inRange_pause [of e now] by simp
  next
    case Reset
    with ev assms show ?thesis using inRange_reset [of e now] by simp
  next
    case NextInterval
    with ev assms show ?thesis using inRange_nextInterval [of e now] by simp
  next
    case PreviousInterval
    with ev assms show ?thesis using inRange_previousInterval [of e now] by simp
  next
    case Destroy
    with ev show ?thesis using inRange_destroy [of e] by simp
  next
    case Frame
    with ev assms show ?thesis using inRange_frame [of e now] by simp
  qed
qed

theorem state_notifications_timeRemaining_in_range_witness:
  "(let e = start 0 (setRoutine 0 sampleRoutine newTimerEngine);
        e' = exec (2500, Frame) e
    in list_all (\<lambda>x. 0 \<le> duration x) (routine e') \<and>
       (\<exists>new. callbacks e' = callbacks e @ new \<and> list_all (timeRemainingInRange (routine e')) new) \<and>
       callbacks e' = callbacks e @
         [OnTick \<lparr> TimerState.isRunning = True, TimerState.isPaused = False,
                   TimerState.currentIntervalIndex = 0, timeRemaining = 3, totalElapsed = 2,
                   totalDuration = 35 \<rparr>])"
proof -
  let ?e = "start 0 (setRoutine 0 sampleRoutine newTimerEngine)"
  let ?e' = "exec (2500, Frame) ?e"
  have h: "\<forall>x\<in>set (routine ?e'). 0 \<le> duration x"
    by (simp add: sampleRoutine_def)
  have c: "\<exists>new. callbacks ?e' = callbacks ?e @ new \<and> (\<forall>n\<in>set new. timeRemainingInRange (routine ?e') n)"
    using state_notifications_timeRemaining_in_range [OF h] .
  have v: "callbacks ?e' = callbacks ?e @
         [OnTick \<lparr> TimerState.isRunning = True, TimerState.isPaused = False,
                   TimerState.currentIntervalIndex = 0, timeRemaining = 3, totalElapsed = 2,
                   totalDuration = 35 \<rparr>]"
    by (simp add: engine_defs sampleRoutine_def sumDurationMs_def)
  show ?thesis unfolding Let_def list_all_iff using h c v by blast
qed

subsection \<open>C4: the reported elapsed time\<close>

text \<open>
  Claim C4 fails on the code. \<open>adjustTimerForNewInterval\<close> moves the start instant and zeroes
  the accumulated pause but leaves \<open>pauseStartTime\<close> alone. After a \<open>nextInterval\<close> made while
  the engine is paused, resuming adds the whole pause, also the part before the move, to the
  accumulated pause: with the test suite's routine started at 0, paused at 1000, moved to
  the next interval at 21000 and resumed at 22000, the running engine reports
  \<open>totalElapsed = -15\<close> (and falls back to index 0).
\<close>

theorem navigation_while_paused_then_resume_negative_totalElapsed:
  "callbacks (run [(0, SetRoutine sampleRoutine), (0, Start), (1000, Pause),
                   (21000, NextInterval), (22000, Start)] newTimerEngine) =
         [OnTick \<lparr> TimerState.isRunning = False, TimerState.isPaused = False,
                   TimerState.currentIntervalIndex = 0, timeRemaining = 5, totalElapsed = 0,
                   totalDuration = 35 \<rparr>,
          OnTick \<lparr> TimerState.isRunning = False, TimerState.isPaused = False,
                   TimerState.currentIntervalIndex = 0, timeRemaining = 5, totalElapsed = 0,
                   totalDuration = 35 \<rparr>,
          OnTick \<lparr> TimerState.isRunning = True, TimerState.isPaused = False,
                   TimerState.currentIntervalIndex = 0, timeRemaining = 5, totalElapsed = 0,
                   totalDuration = 35 \<rparr>,
          OnTick \<lparr> TimerState.isRunning = False, TimerState.isPaused = True,
                   TimerState.currentIntervalIndex = 0, timeRemaining = 4, totalElapsed = 1,
                   totalDuration = 35 \<rparr>,
          OnTick \<lparr> TimerState.isRunning = False, TimerState.isPaused = True,
                   TimerState.currentIntervalIndex = 1, timeRemaining = 10, totalElapsed = - 15,
                   totalDuration = 35 \<rparr>,
          OnIntervalChange 1,
          OnIntervalChange 0,
          OnTick \<lparr> TimerState.isRunning = True, TimerState.isPaused = False,
                   TimerState.currentIntervalIndex = 0, timeRemaining = 5, totalElapsed = - 15,
                   totalDuration = 35 \<rparr>]"
  by (simp add: engine_defs sampleRoutine_def sumDurationMs_def)

subsection \<open>C5: completion\<close>

text \<open>
  Claim C5, as amended. When a re-evaluation of a running engine derives an index at or past
  the end of the routine, the engine stops running, sends exactly one completed notification
  and nothing else, and queues no further frame callback. From then on, as long as only
  frame callbacks fire and only \<open>pause\<close> or \<open>destroy\<close> are called, the engine stays stopped,
  notifies nothing at all and queues nothing. The engine does not wait for \<open>reset\<close> or
  \<open>setRoutine\<close>, though: \<open>start\<close>, and a \<open>nextInterval\<close> or \<open>previousInterval\<close> that moves,
  send state notifications again.
\<close>

theorem completion_ends_periodic_notifications:
  assumes "isRunning e"
    and "int (length (routine e)) \<le> findIntervalIndex (routine e) (now - startTime e - pausedTime e) 0 0"
  shows "(let c = tick now e
          in \<not> isRunning c \<and>
             callbacks c = callbacks e @ [OnComplete] \<and>
             frameQueue c = frameQueue e \<and> nextFrameId c = nextFrameId e \<and>
             (\<forall>evs. (\<forall>ev\<in>set evs. snd ev = Frame \<or> snd ev = Pause \<or> snd ev = Destroy) \<longrightarrow>
                \<not> isRunning (run evs c) \<and>
                callbacks (run evs c) = callbacks c \<and>
                length (frameQueue (run evs c)) \<le> length (frameQueue c) \<and>
                nextFrameId (run evs c) = nextFrameId c))"
proof -
  note c = tick_complete [OF assms]
  have n: "\<not> isRunning (tick now e)" unfolding c by simp
  have "\<not> isRunning (run evs (tick now e)) \<and>
        callbacks (run evs (tick now e)) = callbacks (tick now e) \<and>
        length (frameQueue (run evs (tick now e))) \<le> length (frameQueue (tick now e)) \<and>
        nextFrameId (run evs (tick now e)) = nextFrameId (tick now e)"
    if "\<forall>ev\<in>set evs. snd ev = Frame \<or> snd ev = Pause \<or> snd ev = Destroy" for evs
    using quiet_run [OF n that] by simp
  moreover have "callbacks (tick now e) = callbacks e @ [OnComplete]"
    "frameQueue (tick now e) = frameQueue e" "nextFrameId (tick now e) = nextFrameId e"
    unfolding c by simp_all
  ultimately show ?thesis unfolding Let_def using n by blast
qed

theorem completion_ends_periodic_notifications_witness:
  "(let e = run [(0, SetRoutine sampleRoutine), (0, Start)] newTimerEngine;
        c = tick 35000 e;
        evs = [(35016, Frame), (35020, Pause), (35032, Frame)]
    in isRunning e \<and>
       int (length (routine e)) \<le> findIntervalIndex (routine e) (35000 - startTime e - pausedTime e) 0 0 \<and>
       list_all (\<lambda>ev. snd ev = Frame \<or> snd ev = Pause \<or> snd ev = Destroy) evs \<and>
       \<not> isRunning c \<and> callbacks c = callbacks e @ [OnComplete] \<and>
       callbacks (run evs c) = callbacks c)"
proof -
  define e where "e = run [(0, SetRoutine sampleRoutine), (0, Start)] newTimerEngine"
  have v: "isRunning e" "routine e = sampleRoutine" "startTime e = 0" "pausedTime e = 0"
    by (simp_all add: e_def engine_defs sampleRoutine_def sumDurationMs_def)
  have h: "int (length (routine e)) \<le> findIntervalIndex (routine e) (35000 - startTime e - pausedTime e) 0 0"
    by (simp add: v sampleRoutine_def Let_def)
  have l: "\<forall>ev\<in>set [(35016::int, Frame), (35020, Pause), (35032, Frame)].
             snd ev = Frame \<or> snd ev = Pause \<or> snd ev = Destroy"
    by simp
  from completion_ends_periodic_notifications [OF v(1) h]
  have "\<not> isRunning (tick 35000 e) \<and> callbacks (tick 35000 e) = callbacks e @ [OnComplete] \<and>
        callbacks (run [(35016, Frame), (35020, Pause), (35032, Frame)] (tick 35000 e)) = callbacks (tick 35000 e)"
    unfolding Let_def using l by blast
  then show ?thesis unfolding Let_def e_def [symmetric] list_all_iff using v(1) h l by blast
qed

text \<open>
  After the test suite's routine has completed, without any \<open>reset\<close> or \<open>setRoutine\<close>:
  \<open>nextInterval\<close> sends a state notification, and \<open>start\<close> followed by a frame sends two.
\<close>

theorem notifications_after_completion_counterexample:
  "callbacks (run [(0, SetRoutine sampleRoutine), (0, Start), (35000, Frame),
                   (36000, NextInterval)] newTimerEngine) =
     [OnTick \<lparr> TimerState.isRunning = False, TimerState.isPaused = False,
               TimerState.currentIntervalIndex = 0, timeRemaining = 5, totalElapsed = 0,
               totalDuration = 35 \<rparr>,
      OnTick \<lparr> TimerState.isRunning = False, TimerState.isPaused = False,
               TimerState.currentIntervalIndex = 0, timeRemaining = 5, totalElapsed = 0,
               totalDuration = 35 \<rparr>,
      OnTick \<lparr> TimerState.isRunning = True, TimerState.isPaused = False,
               TimerState.currentIntervalIndex = 0, timeRemaining = 5, totalElapsed = 0,
               totalDuration = 35 \<rparr>,
      OnComplete,
      OnTick \<lparr> TimerState.isRunning = False, TimerState.isPaused = False,
               TimerState.currentIntervalIndex = 1, timeRemaining = 10, totalElapsed = 0,
               totalDuration = 35 \<rparr>,
      OnIntervalChange 1] \<and>
   callbacks (run [(0, SetRoutine sampleRoutine), (0, Start), (35000, Frame),
                   (40000, Start), (40016, Frame)] newTimerEngine) =
     [OnTick \<lparr> TimerState.isRunning = False, TimerState.isPaused = False,
               TimerState.currentIntervalIndex = 0, timeRemaining = 5, totalElapsed = 0,
               totalDuration = 35 \<rparr>,
      OnTick \<lparr> TimerState.isRunning = False, TimerState.isPaused = False,
               TimerState.currentIntervalIndex = 0, timeRemaining = 5, totalElapsed = 0,
               totalDuration = 35 \<rparr>,
      OnTick \<lparr> TimerState.isRunning = True, TimerState.isPaused = False,
               TimerState.currentIntervalIndex = 0, timeRemaining = 5, totalElapsed = 0,
               totalDuration = 35 \<rparr>,
      OnComplete,
      OnTick \<lparr> TimerState.isRunning = True, TimerState.isPaused = False,
               TimerState.currentIntervalIndex = 0, timeRemaining = 5, totalElapsed = 0,
               totalDuration = 35 \<rparr>,
      OnTick \<lparr> TimerState.isRunning = True, TimerState.isPaused = False,
               TimerState.currentIntervalIndex = 0, timeRemaining = 5, totalElapsed = 0,
               totalDuration = 35 \<rparr>]"
  by (simp add: engine_defs sampleRoutine_def sumDurationMs_def)

subsection \<open>C6: loading a routine\<close>

text \<open>
  Claim C6, as amended. \<open>setRoutine\<close> replaces the held routine and resets the engine (index 0,
  not running, not paused, the three clock anchors zero, hence zero elapsed). The state it
  then reports has \<open>totalDuration\<close> equal to the sum of the new routine's durations and
  \<open>timeRemaining\<close> equal to the first interval's duration (0 for an empty routine). It sends
  this state notification twice, not once: \<open>reset\<close> sends it, and \<open>setRoutine\<close> sends it
  again.
\<close>

theorem setRoutine_resets_and_notifies_twice:
  "(let e' = setRoutine now r e;
        s = \<lparr> TimerState.isRunning = False, TimerState.isPaused = False,
              TimerState.currentIntervalIndex = 0,
              timeRemaining = (case r of [] \<Rightarrow> 0 | x # _ \<Rightarrow> max 0 (duration x)),
              totalElapsed = 0,
              totalDuration = sum_list (map duration r) \<rparr>
    in routine e' = r \<and> currentIntervalIndex e' = 0 \<and> isRunning e' = False \<and> isPaused e' = False \<and>
       startTime e' = 0 \<and> pausedTime e' = 0 \<and> pauseStartTime e' = 0 \<and>
       buildState now e' = s \<and>
       callbacks e' = callbacks e @ [OnTick s, OnTick s])"
proof -
  let ?i = "e\<lparr> routine := r, isRunning := False, isPaused := False, currentIntervalIndex := 0,
              startTime := 0, pausedTime := 0, pauseStartTime := 0 \<rparr>"
  have b: "buildState now ?i = \<lparr> TimerState.isRunning = False, TimerState.isPaused = False,
              TimerState.currentIntervalIndex = 0,
              timeRemaining = (case r of [] \<Rightarrow> 0 | x # _ \<Rightarrow> max 0 (duration x)),
              totalElapsed = 0,
              totalDuration = sum_list (map duration r) \<rparr>"
    using buildState_idle_at_0 [of ?i now] by simp
  have f: "routine (setRoutine now r e) = r" "currentIntervalIndex (setRoutine now r e) = 0"
    "isRunning (setRoutine now r e) = False" "isPaused (setRoutine now r e) = False"
    "startTime (setRoutine now r e) = 0" "pausedTime (setRoutine now r e) = 0"
    "pauseStartTime (setRoutine now r e) = 0"
    by (simp_all add: setRoutine_def reset_def)
  have c: "callbacks (setRoutine now r e) = callbacks e @ [OnTick (buildState now ?i), OnTick (buildState now ?i)]"
    by (simp add: setRoutine_def reset_def)
  have b': "buildState now (setRoutine now r e) = buildState now ?i"
    by (simp add: setRoutine_def reset_def)
  show ?thesis unfolding Let_def using f c b b' by simp
qed

text \<open>
  Loading the test suite's routine into a new engine makes two calls to the state callback,
  so "exactly one state notification" fails.
\<close>

theorem setRoutine_single_notification_counterexample:
  "callbacks (setRoutine 0 sampleRoutine newTimerEngine) =
     [OnTick \<lparr> TimerState.isRunning = False, TimerState.isPaused = False,
               TimerState.currentIntervalIndex = 0, timeRemaining = 5, totalElapsed = 0,
               totalDuration = 35 \<rparr>,
      OnTick \<lparr> TimerState.isRunning = False, TimerState.isPaused = False,
               TimerState.currentIntervalIndex = 0, timeRemaining = 5, totalElapsed = 0,
               totalDuration = 35 \<rparr>]"
  by (simp add: engine_defs sampleRoutine_def sumDurationMs_def)

subsection \<open>C7: stepping to the next and the previous interval\<close>

text \<open>
  Claim C7, as amended. For a non-empty routine and an engine whose index is inside it (which
  holds in every state the engine can reach, see \<open>wellFormed_reachable\<close>), \<open>nextInterval\<close> and
  \<open>previousInterval\<close> move the index to \<open>K = min (index + 1) (length - 1)\<close> and to
  \<open>K = max (index - 1) 0\<close>, and leave the running and paused flags alone. When \<open>K\<close> is the
  old index the engine does not change at all. When the index moves, the start instant is
  set to \<open>now\<close> minus the durations of the intervals in front of \<open>K\<close>, the accumulated pause
  is set to zero, and one state notification (for index \<open>K\<close>) and then one interval-changed
  notification carrying \<open>K\<close> are sent. What this does to the elapsed time depends on the
  engine's status. On a running engine the intervals in front of \<open>K\<close> count as played to
  the end: the state notification reports their durations as \<open>totalElapsed\<close>, and a
  re-evaluation at that instant derives \<open>K\<close> again (given no negative duration and a
  positive duration at \<open>K\<close>). On an idle engine (not running, not paused) nothing counts as
  played: the state notification reports zero elapsed time, and a later \<open>start\<close> sets the
  start instant afresh and returns to index 0 (given a positive first duration). Nothing is
  said here about the elapsed time of a paused engine.
\<close>

theorem navigation_moves_clamped_and_reanchors:
  assumes "routine e \<noteq> []"
    and "0 \<le> currentIntervalIndex e" and "currentIntervalIndex e < int (length (routine e))"
  shows
   "(let K = min (currentIntervalIndex e + 1) (int (length (routine e)) - 1);
         played = sum_list (map duration (take (nat K) (routine e)));
         e' = nextInterval now e
     in currentIntervalIndex e' = K \<and> isRunning e' = isRunning e \<and> isPaused e' = isPaused e \<and>
        (K = currentIntervalIndex e \<longrightarrow> e' = e) \<and>
        (K \<noteq> currentIntervalIndex e \<longrightarrow>
           startTime e' = now - 1000 * played \<and> pausedTime e' = 0 \<and>
           callbacks e' = callbacks e @ [OnTick (buildState now e'), OnIntervalChange K] \<and>
           TimerState.currentIntervalIndex (buildState now e') = K \<and>
           (isRunning e \<longrightarrow>
              totalElapsed (buildState now e') = played \<and>
              ((\<forall>x\<in>set (routine e). 0 \<le> duration x) \<and> 0 < duration (routine e ! nat K) \<longrightarrow>
                 isRunning (tick now e') \<and> currentIntervalIndex (tick now e') = K)) \<and>
           (\<not> isRunning e \<and> \<not> isPaused e \<longrightarrow>
              totalElapsed (buildState now e') = 0 \<and>
              (0 < duration (hd (routine e)) \<longrightarrow>
                 (\<forall>t. isRunning (start t e') \<and> startTime (start t e') = t \<and>
                      pausedTime (start t e') = 0 \<and> currentIntervalIndex (start t e') = 0)))))
    \<and>
    (let K = max (currentIntervalIndex e - 1) 0;
         played = sum_list (map duration (take (nat K) (routine e)));
         e' = previousInterval now e
     in currentIntervalIndex e' = K \<and> isRunning e' = isRunning e \<and> isPaused e' = isPaused e \<and>
        (K = currentIntervalIndex e \<longrightarrow> e' = e) \<and>
        (K \<noteq> currentIntervalIndex e \<longrightarrow>
           startTime e' = now - 1000 * played \<and> pausedTime e' = 0 \<and>
           callbacks e' = callbacks e @ [OnTick (buildState now e'), OnIntervalChange K] \<and>
           TimerState.currentIntervalIndex (buildState now e') = K \<and>
           (isRunning e \<longrightarrow>
              totalElapsed (buildState now e') = played \<and>
              ((\<forall>x\<in>set (routine e). 0 \<le> duration x) \<and> 0 < duration (routine e ! nat K) \<longrightarrow>
                 isRunning (tick now e') \<and> currentIntervalIndex (tick now e') = K)) \<and>
           (\<not> isRunning e \<and> \<not> isPaused e \<longrightarrow>
              totalElapsed (buildState now e') = 0 \<and>
              (0 < duration (hd (routine e)) \<longrightarrow>
                 (\<forall>t. isRunning (start t e') \<and> startTime (start t e') = t \<and>
                      pausedTime (start t e') = 0 \<and> currentIntervalIndex (start t e') = 0)))))"
proof (rule conjI)
  let ?i = "currentIntervalIndex e" and ?n = "int (length (routine e))"
  show "let K = min (?i + 1) (?n - 1);
         played = sum_list (map duration (take (nat K) (routine e)));
         e' = nextInterval now e
     in currentIntervalIndex e' = K \<and> isRunning e' = isRunning e \<and> isPaused e' = isPaused e \<and>
        (K = ?i \<longrightarrow> e' = e) \<and>
        (K \<noteq> ?i \<longrightarrow>
           startTime e' = now - 1000 * played \<and> pausedTime e' = 0 \<and>
           callbacks e' = callbacks e @ [OnTick (buildState now e'), OnIntervalChange K] \<and>
           TimerState.currentIntervalIndex (buildState now e') = K \<and>
           (isRunning e \<longrightarrow>
              totalElapsed (buildState now e') = played \<and>
              ((\<forall>x\<in>set (routine e). 0 \<le> duration x) \<and> 0 < duration (routine e ! nat K) \<longrightarrow>
                 isRunning (tick now e') \<and> currentIntervalIndex (tick now e') = K)) \<and>
           (\<not> isRunning e \<and> \<not> isPaused e \<longrightarrow>
              totalElapsed (buildState now e') = 0 \<and>
              (0 < duration (hd (routine e)) \<longrightarrow>
                 (\<forall>t. isRunning (start t e') \<and> startTime (start t e') = t \<and>
                      pausedTime (start t e') = 0 \<and> currentIntervalIndex (start t e') = 0))))"
  proof (cases "?i < ?n - 1")
    case True
    then have K: "min (?i + 1) (?n - 1) = ?i + 1" by simp
    have r: "0 \<le> ?i + 1" "?i + 1 < ?n" using True assms(2) by simp_all
    note m = move_to [OF r, of now, folded nextInterval_move [OF True, of now]]
    note mr = move_to_running_tick [OF r, of now, folded nextInterval_move [OF True, of now]]
    note mi = move_to_idle [OF r, where now = now, folded nextInterval_move [OF True, of now]]
    show ?thesis unfolding Let_def K using m mr mi by simp
  next
    case False
    then have K: "min (?i + 1) (?n - 1) = ?i" using assms(3) by simp
    have "nextInterval now e = e" using False by (simp add: nextInterval_def)
    then show ?thesis unfolding Let_def K by simp
  qed
  show "let K = max (?i - 1) 0;
         played = sum_list (map duration (take (nat K) (routine e)));
         e' = previousInterval now e
     in currentIntervalIndex e' = K \<and> isRunning e' = isRunning e \<and> isPaused e' = isPaused e \<and>
        (K = ?i \<longrightarrow> e' = e) \<and>
        (K \<noteq> ?i \<longrightarrow>
           startTime e' = now - 1000 * played \<and> pausedTime e' = 0 \<and>
           callbacks e' = callbacks e @ [OnTick (buildState now e'), OnIntervalChange K] \<and>
           TimerState.currentIntervalIndex (buildState now e') = K \<and>
           (isRunning e \<longrightarrow>
              totalElapsed (buildState now e') = played \<and>
              ((\<forall>x\<in>set (routine e). 0 \<le> duration x) \<and> 0 < duration (routine e ! nat K) \<longrightarrow>
                 isRunning (tick now e') \<and> currentIntervalIndex (tick now e') = K)) \<and>
           (\<not> isRunning e \<and> \<not> isPaused e \<longrightarrow>
              totalElapsed (buildState now e') = 0 \<and>
              (0 < duration (hd (routine e)) \<longrightarrow>
                 (\<forall>t. isRunning (start t e') \<and> startTime (start t e') = t \<and>
                      pausedTime (start t e') = 0 \<and> currentIntervalIndex (start t e') = 0))))"
  proof (cases "0 < ?i")
    case True
    then have K: "max (?i - 1) 0 = ?i - 1" by simp
    have r: "0 \<le> ?i - 1" "?i - 1 < ?n" using True assms(3) by simp_all
    note m = move_to [OF r, of now, folded previousInterval_move [OF True, of now]]
    note mr = move_to_running_tick [OF r, of now, folded previousInterval_move [OF True, of now]]
    note mi = move_to_idle [OF r, where now = now, folded previousInterval_move [OF True, of now]]
    show ?thesis unfolding Let_def K using m mr mi by simp
  next
    case False
    then have K: "max (?i - 1) 0 = ?i" using assms(2) by simp
    have "previousInterval now e = e" using False by (simp add: previousInterval_def)
    then show ?thesis unfolding Let_def K by simp
  qed
qed

theorem navigation_moves_clamped_and_reanchors_witness:
  "(let e = run [(0, SetRoutine sampleRoutine), (0, Start)] newTimerEngine
    in routine e \<noteq> [] \<and> 0 \<le> currentIntervalIndex e \<and>
       currentIntervalIndex e < int (length (routine e)) \<and> isRunning e \<and>
       list_all (\<lambda>x. 0 \<le> duration x) (routine e) \<and> 0 < duration (routine e ! 1) \<and>
       currentIntervalIndex (nextInterval 2000 e) = 1 \<and>
       startTime (nextInterval 2000 e) = - 3000 \<and>
       pausedTime (nextInterval 2000 e) = 0 \<and>
       totalElapsed (buildState 2000 (nextInterval 2000 e)) = 5 \<and>
       currentIntervalIndex (tick 2000 (nextInterval 2000 e)) = 1 \<and>
       previousInterval 2000 e = e) \<and>
   (let e = setRoutine 0 sampleRoutine newTimerEngine
    in routine e \<noteq> [] \<and> 0 \<le> currentIntervalIndex e \<and>
       currentIntervalIndex e < int (length (routine e)) \<and>
       isRunning e = False \<and> isPaused e = False \<and> 0 < duration (hd (routine e)) \<and>
       currentIntervalIndex (nextInterval 1000 e) = 1 \<and>
       totalElapsed (buildState 1000 (nextInterval 1000 e)) = 0 \<and>
       currentIntervalIndex (start 2000 (nextInterval 1000 e)) = 0)"
proof -
  define e where "e = run [(0, SetRoutine sampleRoutine), (0, Start)] newTimerEngine"
  have v: "currentIntervalIndex e = 0" "routine e = sampleRoutine" "isRunning e"
    by (simp_all add: e_def engine_defs sampleRoutine_def sumDurationMs_def)
  have h: "routine e \<noteq> []" "0 \<le> currentIntervalIndex e"
    "currentIntervalIndex e < int (length (routine e))"
    by (simp_all add: v sampleRoutine_def)
  have d: "\<forall>x\<in>set (routine e). 0 \<le> duration x" "0 < duration (routine e ! 1)"
    by (simp_all add: v sampleRoutine_def)
  have a: "currentIntervalIndex (nextInterval 2000 e) = 1 \<and>
       startTime (nextInterval 2000 e) = - 3000 \<and>
       pausedTime (nextInterval 2000 e) = 0 \<and>
       totalElapsed (buildState 2000 (nextInterval 2000 e)) = 5 \<and>
       currentIntervalIndex (tick 2000 (nextInterval 2000 e)) = 1 \<and>
       previousInterval 2000 e = e"
    using navigation_moves_clamped_and_reanchors [OF h, of 2000] d
    by (simp add: Let_def v sampleRoutine_def)
  define i where "i = setRoutine 0 sampleRoutine newTimerEngine"
  have w: "currentIntervalIndex i = 0" "routine i = sampleRoutine" "isRunning i = False"
    "isPaused i = False"
    by (simp_all add: i_def setRoutine_fields)
  have g: "routine i \<noteq> []" "0 \<le> currentIntervalIndex i"
    "currentIntervalIndex i < int (length (routine i))" "0 < duration (hd (routine i))"
    by (simp_all add: w sampleRoutine_def)
  have b: "currentIntervalIndex (nextInterval 1000 i) = 1 \<and>
       totalElapsed (buildState 1000 (nextInterval 1000 i)) = 0 \<and>
       currentIntervalIndex (start 2000 (nextInterval 1000 i)) = 0"
    using navigation_moves_clamped_and_reanchors [OF g(1-3), of 1000] g(4)
    by (simp add: Let_def w sampleRoutine_def)
  show ?thesis
    unfolding Let_def e_def [symmetric] i_def [symmetric] list_all_iff
    using h v(3) d a g w(3,4) b by simp
qed

text \<open>
  On the idle engine that holds the test suite's routine, \<open>nextInterval\<close> moves to index 1,
  in front of which lie 5 seconds, but the state notification reports zero elapsed time, and
  \<open>start\<close> then goes back to index 0.
\<close>

theorem navigation_on_idle_engine_counterexample:
  "callbacks (run [(0, SetRoutine sampleRoutine), (1000, NextInterval)] newTimerEngine) =
     [OnTick \<lparr> TimerState.isRunning = False, TimerState.isPaused = False,
               TimerState.currentIntervalIndex = 0, timeRemaining = 5, totalElapsed = 0,
               totalDuration = 35 \<rparr>,
      OnTick \<lparr> TimerState.isRunning = False, TimerState.isPaused = False,
               TimerState.currentIntervalIndex = 0, timeRemaining = 5, totalElapsed = 0,
               totalDuration = 35 \<rparr>,
      OnTick \<lparr> TimerState.isRunning = False, TimerState.isPaused = False,
               TimerState.currentIntervalIndex = 1, timeRemaining = 10, totalElapsed = 0,
               totalDuration = 35 \<rparr>,
      OnIntervalChange 1] \<and>
   sum_list (map duration (take 1 sampleRoutine)) = 5 \<and>
   currentIntervalIndex (run [(0, SetRoutine sampleRoutine), (1000, NextInterval)] newTimerEngine) = 1 \<and>
   currentIntervalIndex (run [(0, SetRoutine sampleRoutine), (1000, NextInterval), (2000, Start)]
                           newTimerEngine) = 0 \<and>
   intervalChanges (callbacks (run [(0, SetRoutine sampleRoutine), (1000, NextInterval), (2000, Start)]
                                 newTimerEngine)) = [1, 0] \<and>
   last (callbacks (run [(0, SetRoutine sampleRoutine), (1000, NextInterval), (2000, Start)]
                      newTimerEngine)) =
     OnTick \<lparr> TimerState.isRunning = True, TimerState.isPaused = False,
              TimerState.currentIntervalIndex = 0, timeRemaining = 5, totalElapsed = 0,
              totalDuration = 35 \<rparr>"
  by (simp add: engine_defs sampleRoutine_def sumDurationMs_def)

subsection \<open>C8: the completed engine\<close>

text \<open>
  Claim C8, as amended. The engine keeps no record of having completed: after completion it
  is not running and not paused. Frame callbacks and \<open>pause\<close> leave it so, and \<open>reset\<close> and
  \<open>setRoutine\<close> make it idle at index 0. But \<open>start\<close> is not held back: on a routine that
  begins with an interval of positive duration it takes the fresh-start branch (start
  instant \<open>now\<close>, accumulated pause zero), and the engine is running again from index 0,
  reports zero elapsed time and has a frame callback queued.
\<close>

theorem completed_engine_restarts_on_start:
  assumes "isRunning e" and "\<not> isPaused e"
    and "routine e \<noteq> []" and "0 < duration (hd (routine e))"
    and "int (length (routine e)) \<le> findIntervalIndex (routine e) (now - startTime e - pausedTime e) 0 0"
  shows "(let c = tick now e
          in \<not> isRunning c \<and> \<not> isPaused c \<and>
             (\<forall>t. \<not> isRunning (frame t c) \<and> \<not> isPaused (frame t c)) \<and>
             (\<forall>t. pause t c = c) \<and>
             (\<forall>t. \<not> isRunning (reset t c) \<and> \<not> isPaused (reset t c) \<and> currentIntervalIndex (reset t c) = 0) \<and>
             (\<forall>t r. \<not> isRunning (setRoutine t r c) \<and> \<not> isPaused (setRoutine t r c) \<and>
                    currentIntervalIndex (setRoutine t r c) = 0) \<and>
             (\<forall>t. isRunning (start t c) \<and> \<not> isPaused (start t c) \<and>
                  startTime (start t c) = t \<and> pausedTime (start t c) = 0 \<and>
                  currentIntervalIndex (start t c) = 0 \<and>
                  last (callbacks (start t c)) = OnTick (buildState t (start t c)) \<and>
                  TimerState.isRunning (buildState t (start t c)) \<and>
                  totalElapsed (buildState t (start t c)) = 0 \<and>
                  frameQueue (start t c) \<noteq> []))"
proof -
  let ?c = "tick now e"
  note c = tick_complete [OF assms(1,5)]
  have n: "\<not> isRunning ?c" "\<not> isPaused ?c" "routine ?c = routine e"
    unfolding c using assms(2) by simp_all
  have fr: "\<not> isRunning (frame t ?c) \<and> \<not> isPaused (frame t ?c)" for t
    using quiet_step [OF n(1), of "(t, Frame)"] n(2) by simp
  have pa: "pause t ?c = ?c" for t using n(1) by (simp add: pause_def)
  have re: "\<not> isRunning (reset t ?c) \<and> \<not> isPaused (reset t ?c) \<and> currentIntervalIndex (reset t ?c) = 0" for t
    by (simp add: reset_fields)
  have se: "\<not> isRunning (setRoutine t r ?c) \<and> \<not> isPaused (setRoutine t r ?c) \<and>
            currentIntervalIndex (setRoutine t r ?c) = 0" for t r
    by (simp add: setRoutine_fields)
  have r': "routine ?c \<noteq> []" "\<not> isPaused ?c" "isRunning ?c \<or> \<not> isRunning ?c"
    "0 < duration (hd (routine ?c))"
    using n assms(3,4) by simp_all
  have st: "isRunning (start t ?c) \<and> \<not> isPaused (start t ?c) \<and>
            startTime (start t ?c) = t \<and> pausedTime (start t ?c) = 0 \<and>
            currentIntervalIndex (start t ?c) = 0 \<and>
            last (callbacks (start t ?c)) = OnTick (buildState t (start t ?c)) \<and>
            TimerState.isRunning (buildState t (start t ?c)) \<and>
            totalElapsed (buildState t (start t ?c)) = 0 \<and>
            frameQueue (start t ?c) \<noteq> []" for t
  proof -
    obtain x xs where r: "routine ?c = x # xs" using r'(1) by (cases "routine ?c") auto
    have k: "0 = findIntervalIndex (routine ?c) 0 0 0" using r'(4) r by (simp add: Let_def)
    have l: "(0::int) < int (length (routine ?c))" using r by simp
    note s = start_idle [OF r'(1,2) k l, of t]
    have b: "buildState t (start t ?c) =
             buildState t (?c\<lparr> startTime := t, pausedTime := 0, isRunning := True, currentIntervalIndex := 0\<rparr>)"
      unfolding s by simp
    have te: "totalElapsed (buildState t (start t ?c)) = 0"
      unfolding b by (simp add: buildState_running_totalElapsed floorDiv1000_def)
    have la: "last (callbacks (start t ?c)) = OnTick (buildState t (start t ?c))"
      unfolding b unfolding s by simp
    have fl: "isRunning (start t ?c)" "\<not> isPaused (start t ?c)" "startTime (start t ?c) = t"
      "pausedTime (start t ?c) = 0" "currentIntervalIndex (start t ?c) = 0"
      "frameQueue (start t ?c) \<noteq> []"
      unfolding s using n(2) by simp_all
    show ?thesis using fl la te by simp
  qed
  show ?thesis unfolding Let_def using n(1,2) fr pa re se st by blast
qed

theorem completed_engine_restarts_on_start_witness:
  "(let e = run [(0, SetRoutine sampleRoutine), (0, Start), (34000, Frame)] newTimerEngine;
        c = tick 35000 e
    in isRunning e \<and> \<not> isPaused e \<and> routine e \<noteq> [] \<and> 0 < duration (hd (routine e)) \<and>
       int (length (routine e)) \<le> findIntervalIndex (routine e) (35000 - startTime e - pausedTime e) 0 0 \<and>
       \<not> isRunning c \<and> \<not> isPaused c \<and> pause 36000 c = c \<and>
       isRunning (start 40000 c) \<and> startTime (start 40000 c) = 40000 \<and>
       currentIntervalIndex (start 40000 c) = 0)"
proof -
  define e where "e = run [(0, SetRoutine sampleRoutine), (0, Start), (34000, Frame)] newTimerEngine"
  have v: "isRunning e" "\<not> isPaused e" "routine e = sampleRoutine" "startTime e = 0" "pausedTime e = 0"
    by (simp_all add: e_def engine_defs sampleRoutine_def sumDurationMs_def)
  have h: "routine e \<noteq> []" "0 < duration (hd (routine e))"
    "int (length (routine e)) \<le> findIntervalIndex (routine e) (35000 - startTime e - pausedTime e) 0 0"
    by (simp_all add: v sampleRoutine_def Let_def)
  from completed_engine_restarts_on_start [OF v(1,2) h]
  have "\<not> isRunning (tick 35000 e) \<and> \<not> isPaused (tick 35000 e) \<and> pause 36000 (tick 35000 e) = tick 35000 e \<and>
       isRunning (start 40000 (tick 35000 e)) \<and> startTime (start 40000 (tick 35000 e)) = 40000 \<and>
       currentIntervalIndex (start 40000 (tick 35000 e)) = 0"
    unfolding Let_def by blast
  then show ?thesis unfolding Let_def e_def [symmetric] using v(1,2) h by blast
qed

text \<open>
  The test suite's routine runs to completion; \<open>start\<close> five seconds later makes the engine
  run again from the first interval.
\<close>

theorem start_leaves_completed_counterexample:
  "isRunning (run [(0, SetRoutine sampleRoutine), (0, Start), (34000, Frame), (35000, Frame)]
                newTimerEngine) = False \<and>
   isPaused (run [(0, SetRoutine sampleRoutine), (0, Start), (34000, Frame), (35000, Frame)]
               newTimerEngine) = False \<and>
   last (callbacks (run [(0, SetRoutine sampleRoutine), (0, Start), (34000, Frame), (35000, Frame)]
                      newTimerEngine)) = OnComplete \<and>
   isRunning (run [(0, SetRoutine sampleRoutine), (0, Start), (34000, Frame), (35000, Frame),
                   (40000, Start)] newTimerEngine) = True \<and>
   currentIntervalIndex (run [(0, SetRoutine sampleRoutine), (0, Start), (34000, Frame), (35000, Frame),
                              (40000, Start)] newTimerEngine) = 0 \<and>
   last (callbacks (run [(0, SetRoutine sampleRoutine), (0, Start), (34000, Frame), (35000, Frame),
                         (40000, Start)] newTimerEngine)) =
     OnTick \<lparr> TimerState.isRunning = True, TimerState.isPaused = False,
               TimerState.currentIntervalIndex = 0, timeRemaining = 5, totalElapsed = 0,
               totalDuration = 35 \<rparr>"
  by (simp add: engine_defs sampleRoutine_def sumDurationMs_def)

subsection \<open>C9: operations on an empty routine\<close>

text \<open>
  Claim C9. After \<open>setRoutine []\<close> on any engine, any sequence of \<open>start\<close>,
  \<open>nextInterval\<close> and \<open>previousInterval\<close> calls, at any instants, leaves the engine exactly
  as the load left it, after every call of the sequence: nothing is notified or scheduled,
  \<open>getCurrentInterval\<close> is \<open>null\<close>, and the state is the empty default (index 0, not
  running, not paused, zero elapsed, zero total duration). The model of these operations has
  no failing branch: none of them can throw.
\<close>

theorem empty_routine_operations_are_noops:
  assumes "\<forall>ev\<in>set evs. snd ev = Start \<or> snd ev = NextInterval \<or> snd ev = PreviousInterval"
  shows "(let e = setRoutine t [] e0
          in (\<forall>n. run (take n evs) e = e) \<and>
             run evs e = e \<and>
             getCurrentInterval e = Null \<and>
             currentIntervalIndex e = 0 \<and> isRunning e = False \<and> isPaused e = False \<and>
             (\<forall>now. buildState now e =
                \<lparr> TimerState.isRunning = False, TimerState.isPaused = False,
                  TimerState.currentIntervalIndex = 0, timeRemaining = 0, totalElapsed = 0,
                  totalDuration = 0 \<rparr>))"
proof -
  let ?e = "setRoutine t [] e0"
  have f: "routine ?e = []" "currentIntervalIndex ?e = 0" "isRunning ?e = False" "isPaused ?e = False"
    by (simp_all add: setRoutine_fields)
  have p: "run (take n evs) ?e = ?e" for n
  proof -
    have "\<forall>ev\<in>set (take n evs). snd ev = Start \<or> snd ev = NextInterval \<or> snd ev = PreviousInterval"
      using assms by (auto dest: in_set_takeD)
    then show ?thesis using f by (intro empty_routine_run) simp_all
  qed
  have r: "run evs ?e = ?e" using assms f by (intro empty_routine_run) simp_all
  have g: "getCurrentInterval ?e = Null" using f by (simp add: getCurrentInterval_def)
  have b: "buildState now ?e =
                \<lparr> TimerState.isRunning = False, TimerState.isPaused = False,
                  TimerState.currentIntervalIndex = 0, timeRemaining = 0, totalElapsed = 0,
                  totalDuration = 0 \<rparr>" for now
    using buildState_idle_at_0 [of ?e now] f by simp
  show ?thesis unfolding Let_def using p r g f b by simp
qed

theorem empty_routine_operations_are_noops_witness:
  "list_all (\<lambda>ev. snd ev = Start \<or> snd ev = NextInterval \<or> snd ev = PreviousInterval)
     [(10, Start), (20, NextInterval), (30, PreviousInterval)] \<and>
   run [(10, Start), (20, NextInterval), (30, PreviousInterval)] (setRoutine 0 [] newTimerEngine)
     = setRoutine 0 [] newTimerEngine \<and>
   getCurrentInterval (run [(10, Start), (20, NextInterval), (30, PreviousInterval)] (setRoutine 0 [] newTimerEngine)) = Null"
proof -
  have h: "\<forall>ev\<in>set [(10::int, Start), (20, NextInterval), (30, PreviousInterval)].
             snd ev = Start \<or> snd ev = NextInterval \<or> snd ev = PreviousInterval"
    by simp
  from empty_routine_operations_are_noops [OF h, of 0 newTimerEngine]
  show ?thesis unfolding Let_def by simp
qed

subsection \<open>C10: start while already running\<close>

text \<open>
  Claim C10, as amended. \<open>start\<close> on a running (not paused) engine whose routine begins with
  an interval of positive duration takes the fresh-start branch: the start instant becomes
  \<open>now\<close>, the accumulated pause zero, and the engine stays running. The call then runs one
  re-evaluation itself, before it returns: the index is re-derived from the restarted clock
  and becomes 0, with an interval-changed notification carrying 0 when it was not 0 already;
  a state notification reporting zero elapsed time is sent, and one more frame callback is
  queued behind those already pending.
\<close>

theorem start_while_running_restarts_and_reevaluates:
  assumes "routine e \<noteq> []" and "isRunning e" and "\<not> isPaused e"
    and "0 < duration (hd (routine e))"
  shows "(let s = start now e
          in startTime s = now \<and> pausedTime s = 0 \<and> isRunning s \<and> \<not> isPaused s \<and>
             currentIntervalIndex s = 0 \<and>
             callbacks s = callbacks e
                @ (if currentIntervalIndex e \<noteq> 0 then [OnIntervalChange 0] else [])
                @ [OnTick (buildState now s)] \<and>
             totalElapsed (buildState now s) = 0 \<and>
             frameQueue s = frameQueue e @ [nextFrameId e])"
proof -
  obtain x xs where r: "routine e = x # xs" using assms(1) by (cases "routine e") auto
  have k: "0 = findIntervalIndex (routine e) 0 0 0" using assms(4) r by (simp add: Let_def)
  have l: "(0::int) < int (length (routine e))" using r by simp
  let ?s = "e\<lparr> startTime := now, pausedTime := 0, isRunning := True,
              currentIntervalIndex := 0,
              callbacks := callbacks e @ (if 0 \<noteq> currentIntervalIndex e then [OnIntervalChange 0] else [])
                 @ [OnTick (buildState now (e\<lparr> startTime := now, pausedTime := 0, isRunning := True, currentIntervalIndex := 0\<rparr>))],
              animationFrameId := Some (nextFrameId e),
              frameQueue := frameQueue e @ [nextFrameId e],
              nextFrameId := nextFrameId e + 1 \<rparr>"
  have s: "start now e = ?s"
    using start_idle [OF assms(1,3) k l, of now] .
  have b: "buildState now ?s = buildState now (e\<lparr> startTime := now, pausedTime := 0, isRunning := True, currentIntervalIndex := 0\<rparr>)"
    by simp
  have t: "totalElapsed (buildState now ?s) = 0"
    by (simp add: buildState_running_totalElapsed floorDiv1000_def)
  show ?thesis unfolding Let_def s
    using assms(3) t by (simp add: b)
qed

theorem start_while_running_restarts_and_reevaluates_witness:
  "(let e = run [(0, SetRoutine sampleRoutine), (0, Start), (5000, Frame)] newTimerEngine
    in routine e \<noteq> [] \<and> isRunning e \<and> \<not> isPaused e \<and> 0 < duration (hd (routine e)) \<and>
       currentIntervalIndex e = 1 \<and> startTime (start 6000 e) = 6000 \<and>
       currentIntervalIndex (start 6000 e) = 0 \<and>
       frameQueue (start 6000 e) = frameQueue e @ [nextFrameId e])"
proof -
  let ?e = "run [(0, SetRoutine sampleRoutine), (0, Start), (5000, Frame)] newTimerEngine"
  have h: "routine ?e \<noteq> []" "isRunning ?e" "\<not> isPaused ?e" "0 < duration (hd (routine ?e))"
    "currentIntervalIndex ?e = 1"
    by (simp_all add: engine_defs sampleRoutine_def sumDurationMs_def)
  from start_while_running_restarts_and_reevaluates [OF h(1-4), of 6000] h
  show ?thesis unfolding Let_def by simp
qed

text \<open>
  After the test suite's routine has run for 5 seconds the index is 1; \<open>start\<close> at 6 seconds
  sets it to 0 and notifies the change, so the call does not leave the index unchanged.
\<close>

theorem start_while_running_index_counterexample:
  "isRunning (run [(0, SetRoutine sampleRoutine), (0, Start), (5000, Frame)] newTimerEngine) = True \<and>
   isPaused (run [(0, SetRoutine sampleRoutine), (0, Start), (5000, Frame)] newTimerEngine) = False \<and>
   currentIntervalIndex (run [(0, SetRoutine sampleRoutine), (0, Start), (5000, Frame)]
                           newTimerEngine) = 1 \<and>
   currentIntervalIndex (run [(0, SetRoutine sampleRoutine), (0, Start), (5000, Frame),
                              (6000, Start)] newTimerEngine) = 0 \<and>
   intervalChanges (callbacks (run [(0, SetRoutine sampleRoutine), (0, Start), (5000, Frame),
                                    (6000, Start)] newTimerEngine)) = [1, 0]"
  by (simp add: engine_defs sampleRoutine_def sumDurationMs_def)

end
